theory Spec2Isabelle
  imports Complex_Main "HOL-Library.Word"
begin

unbundle bit_operations_syntax

section \<open>Numbers\<close>

text \<open>
  Go's \<open>uint8\<close> and \<open>uint32\<close> are words. Go's \<open>int\<close> (64 bits) is the type \<open>int\<close>:
  the integers of this program are coordinates and sizes of images held in memory and
  counters read from JSON, and none of its arithmetic on them comes near \<open>2^63\<close>.
\<close>

type_synonym u8 = "8 word"
type_synonym u32 = "32 word"

subsection \<open>float64\<close>

text \<open>
  \<open>resizeImage\<close> computes its source coordinates in Go's \<open>float64\<close>. Every value it
  produces is finite and, when not zero, far inside the normal range (quotients and
  products of image dimensions), so a \<open>float64\<close> is modelled by the rational it denotes
  and each operation by the exact result rounded to 53 significant bits, to nearest,
  ties to even, as IEEE 754 prescribes for \<open>+\<close>, \<open>*\<close>, \<open>/\<close> and for the conversion from
  an integer. Infinities, NaN, subnormals and overflow are outside this model; the only
  place where the source can produce one (a division by a zero target dimension) feeds
  a loop that then runs zero times.
\<close>

definition pow2 :: "int \<Rightarrow> rat" where
  "pow2 e = (if 0 \<le> e then 2 ^ nat e else 1 / 2 ^ nat (- e))"

text \<open>The number of binary digits of a positive integer.\<close>

function bitlen :: "int \<Rightarrow> nat" where
  "bitlen a = (if a \<le> 0 then 0 else Suc (bitlen (a div 2)))"
  by pat_completeness auto
termination
  by (relation "measure nat") auto

declare bitlen.simps [simp del]

text \<open>For \<open>q > 0\<close>, \<open>ilog2 q\<close> is the exponent \<open>k\<close> with \<open>2^k \<le> q < 2^(k+1)\<close>.\<close>

definition ilog2 :: "rat \<Rightarrow> int" where
  "ilog2 q =
     (let (a, b) = quotient_of q;
          k = int (bitlen a) - int (bitlen b)
      in if pow2 k \<le> q then k else k - 1)"

text \<open>Rounding a rational to the nearest integer, a tie going to the even neighbour.\<close>

definition rne :: "rat \<Rightarrow> int" where
  "rne x =
     (let f = \<lfloor>x\<rfloor>; d = x - of_int f
      in if d < 1 / 2 then f
         else if 1 / 2 < d then f + 1
         else if even f then f else f + 1)"

text \<open>The \<open>float64\<close> nearest to a rational: a 53-bit significand times a power of two.\<close>

definition float64 :: "rat \<Rightarrow> rat" where
  "float64 q =
     (if q = 0 then 0
      else let e = ilog2 \<bar>q\<bar> - 52
           in sgn q * of_int (rne (\<bar>q\<bar> / pow2 e)) * pow2 e)"

definition float64_of_int :: "int \<Rightarrow> rat" where
  "float64_of_int n = float64 (of_int n)"

definition f64_mul :: "rat \<Rightarrow> rat \<Rightarrow> rat" where
  "f64_mul a b = float64 (a * b)"

definition f64_div :: "rat \<Rightarrow> rat \<Rightarrow> rat" where
  "f64_div a b = float64 (a / b)"

text \<open>Go's \<open>int(f)\<close>: the fraction is discarded (truncation towards zero).\<close>

definition int_of_float64 :: "rat \<Rightarrow> int" where
  "int_of_float64 f = (if 0 \<le> f then \<lfloor>f\<rfloor> else \<lceil>f\<rceil>)"

section \<open>Images\<close>

text \<open>
  Go's \<open>color.Color\<close> is an interface with the single method \<open>RGBA()\<close>, which returns
  four \<open>uint32\<close> channels (alpha-premultiplied, each in \<open>[0, 0xffff]\<close>). A colour is
  modelled by what that method returns. \<open>color.RGBA\<close> is the struct of four \<open>uint8\<close>.
\<close>

type_synonym Color = "u32 \<times> u32 \<times> u32 \<times> u32"
type_synonym RGBA = "u8 \<times> u8 \<times> u8 \<times> u8"

record Rectangle =
  MinX :: int
  MinY :: int
  MaxX :: int
  MaxY :: int

text \<open>\<open>image.Rect\<close> returns the well-formed rectangle, swapping coordinates if needed.\<close>

definition Rect :: "int \<Rightarrow> int \<Rightarrow> int \<Rightarrow> int \<Rightarrow> Rectangle" where
  "Rect x0 y0 x1 y1 =
     \<lparr>MinX = min x0 x1, MinY = min y0 y1, MaxX = max x0 x1, MaxY = max y0 y1\<rparr>"

definition Dx :: "Rectangle \<Rightarrow> int" where
  "Dx r = MaxX r - MinX r"

definition Dy :: "Rectangle \<Rightarrow> int" where
  "Dy r = MaxY r - MinY r"

definition In :: "int \<Rightarrow> int \<Rightarrow> Rectangle \<Rightarrow> bool" where
  "In x y r \<longleftrightarrow> MinX r \<le> x \<and> x < MaxX r \<and> MinY r \<le> y \<and> y < MaxY r"

text \<open>The interface \<open>image.Image\<close>: its bounds and the colour at a point.\<close>

record Image =
  Bounds :: Rectangle
  At :: "int \<Rightarrow> int \<Rightarrow> Color"

text \<open>
  \<open>*image.RGBA\<close>: \<open>Pix\<close> holds the pixels row by row (one entry for the four bytes
  R, G, B, A of a pixel), \<open>Stride\<close> is the distance between rows, counted in pixels.
  \<open>image.NewRGBA\<close> returns a buffer of zero pixels (it panics only when the buffer would
  be too large to index, which is left out here).
\<close>

record RGBAImage =
  Pix :: "RGBA list"
  Stride :: int
  PRect :: Rectangle

definition NewRGBA :: "Rectangle \<Rightarrow> RGBAImage" where
  "NewRGBA r = \<lparr>Pix = replicate (nat (Dx r * Dy r)) (0, 0, 0, 0), Stride = Dx r, PRect = r\<rparr>"

definition PixOffset :: "RGBAImage \<Rightarrow> int \<Rightarrow> int \<Rightarrow> int" where
  "PixOffset p x y = (y - MinY (PRect p)) * Stride p + (x - MinX (PRect p))"

definition SetRGBA :: "RGBAImage \<Rightarrow> int \<Rightarrow> int \<Rightarrow> RGBA \<Rightarrow> RGBAImage" where
  "SetRGBA p x y c =
     (if \<not> In x y (PRect p) then p
      else p\<lparr>Pix := (Pix p)[nat (PixOffset p x y) := c]\<rparr>)"

definition RGBAAt :: "RGBAImage \<Rightarrow> int \<Rightarrow> int \<Rightarrow> RGBA" where
  "RGBAAt p x y =
     (if \<not> In x y (PRect p) then (0, 0, 0, 0)
      else Pix p ! nat (PixOffset p x y))"

subsection \<open>resizeImage\<close>

text \<open>The 8-bit pixel stored for a colour: \<open>uint8(r >> 8)\<close> and so on for each channel.\<close>

definition high_bytes :: "Color \<Rightarrow> RGBA" where
  "high_bytes c =
     (case c of (r, g, b, a) \<Rightarrow>
        (ucast (drop_bit 8 r), ucast (drop_bit 8 g), ucast (drop_bit 8 b), ucast (drop_bit 8 a)))"

definition resizeImage :: "Image \<Rightarrow> int \<Rightarrow> int \<Rightarrow> RGBAImage" where
  "resizeImage src width height =
     (let srcBounds = Bounds src;
          srcWidth = MaxX srcBounds - MinX srcBounds;
          srcHeight = MaxY srcBounds - MinY srcBounds;
          dst = NewRGBA (Rect 0 0 width height);
          xRatio = f64_div (float64_of_int srcWidth) (float64_of_int width);
          yRatio = f64_div (float64_of_int srcHeight) (float64_of_int height)
      in fold (\<lambda>y dst.
           fold (\<lambda>x dst.
             let srcX = int_of_float64 (f64_mul (float64_of_int x) xRatio);
                 srcY = int_of_float64 (f64_mul (float64_of_int y) yRatio);
                 srcX = (if srcX \<ge> srcWidth then srcWidth - 1 else srcX);
                 srcY = (if srcY \<ge> srcHeight then srcHeight - 1 else srcY)
             in SetRGBA dst x y (high_bytes (At src (MinX srcBounds + srcX) (MinY srcBounds + srcY))))
             [0..width - 1] dst)
           [0..height - 1] dst)"

text \<open>
  The source column (or row) \<open>resizeImage\<close> samples for destination index \<open>i\<close>: the
  expression of the loop body, with its bound check, for one axis.
\<close>

definition srcCoord :: "int \<Rightarrow> int \<Rightarrow> int \<Rightarrow> int" where
  "srcCoord srcLen len i =
     (let s = int_of_float64 (f64_mul (float64_of_int i)
                (f64_div (float64_of_int srcLen) (float64_of_int len)))
      in if s \<ge> srcLen then srcLen - 1 else s)"

text \<open>The layout invariant of an \<open>*image.RGBA\<close> made by \<open>image.NewRGBA\<close>.\<close>

definition wf_rgba :: "RGBAImage \<Rightarrow> bool" where
  "wf_rgba p \<longleftrightarrow>
     Stride p = Dx (PRect p) \<and> length (Pix p) = nat (Dx (PRect p) * Dy (PRect p))"

subsection \<open>Colours and drawing of the standard library\<close>

text \<open>
  \<open>color.RGBA{r, g, b, a}\<close>, \<open>color.NRGBA{r, g, b, a}\<close> and \<open>color.Gray16{y}\<close> seen
  through \<open>RGBA()\<close>: \<open>r |= r << 8\<close> for the first; for the second, whose channels are
  stored without the alpha multiplied in, \<open>r |= r << 8; r *= a; r /= 0xff\<close> for the
  three colour channels and \<open>a |= a << 8\<close> for alpha; \<open>(y, y, y, 0xffff)\<close> for the third.
  \<open>color.White\<close> is \<open>Gray16{0xffff}\<close> and \<open>color.Black\<close> is \<open>Gray16{0}\<close>.
\<close>

definition widen :: "u8 \<Rightarrow> u32" where
  "widen c = ucast c OR push_bit 8 (ucast c)"

definition color_RGBA :: "u8 \<Rightarrow> u8 \<Rightarrow> u8 \<Rightarrow> u8 \<Rightarrow> Color" where
  "color_RGBA r g b a = (widen r, widen g, widen b, widen a)"

definition color_NRGBA :: "u8 \<Rightarrow> u8 \<Rightarrow> u8 \<Rightarrow> u8 \<Rightarrow> Color" where
  "color_NRGBA r g b a =
     (widen r * ucast a div 0xff, widen g * ucast a div 0xff, widen b * ucast a div 0xff, widen a)"

definition color_Gray16 :: "16 word \<Rightarrow> Color" where
  "color_Gray16 y = (ucast y, ucast y, ucast y, 0xffff)"

definition White :: Color where
  "White = color_Gray16 0xffff"

definition Black :: Color where
  "Black = color_Gray16 0"

text \<open>An \<open>*image.RGBA\<close> used as an \<open>image.Image\<close>, and \<open>&image.Uniform{C: c}\<close>.\<close>

definition Image_of :: "RGBAImage \<Rightarrow> Image" where
  "Image_of p =
     \<lparr>Bounds = PRect p,
      At = (\<lambda>x y. case RGBAAt p x y of (r, g, b, a) \<Rightarrow> color_RGBA r g b a)\<rparr>"

definition Uniform :: "Color \<Rightarrow> Image" where
  "Uniform c =
     \<lparr>Bounds = \<lparr>MinX = - 1000000000, MinY = - 1000000000,
                 MaxX = 1000000000, MaxY = 1000000000\<rparr>,
      At = (\<lambda>x y. c)\<rparr>"

definition Empty :: "Rectangle \<Rightarrow> bool" where
  "Empty r \<longleftrightarrow> MinX r \<ge> MaxX r \<or> MinY r \<ge> MaxY r"

definition Intersect :: "Rectangle \<Rightarrow> Rectangle \<Rightarrow> Rectangle" where
  "Intersect r s =
     (let r = (if MinX r < MinX s then r\<lparr>MinX := MinX s\<rparr> else r);
          r = (if MinY r < MinY s then r\<lparr>MinY := MinY s\<rparr> else r);
          r = (if MaxX r > MaxX s then r\<lparr>MaxX := MaxX s\<rparr> else r);
          r = (if MaxY r > MaxY s then r\<lparr>MaxY := MaxY s\<rparr> else r)
      in if Empty r then \<lparr>MinX = 0, MinY = 0, MaxX = 0, MaxY = 0\<rparr> else r)"

definition Add :: "Rectangle \<Rightarrow> int \<times> int \<Rightarrow> Rectangle" where
  "Add r p =
     \<lparr>MinX = MinX r + fst p, MinY = MinY r + snd p,
      MaxX = MaxX r + fst p, MaxY = MaxY r + snd p\<rparr>"

text \<open>
  \<open>draw.Draw(dst, r, src, sp, draw.Src)\<close> on an \<open>*image.RGBA\<close> destination: \<open>clip\<close>
  cuts \<open>r\<close> down to the bounds of \<open>dst\<close> and to those of \<open>src\<close> (moved so that \<open>sp\<close> lies
  on the corner of \<open>r\<close>) and moves \<open>sp\<close> along; every pixel of what is left is then
  overwritten by the source colour aligned with it, converted to 8-bit RGBA.
\<close>

definition clip :: "RGBAImage \<Rightarrow> Rectangle \<Rightarrow> Image \<Rightarrow> int \<times> int \<Rightarrow> Rectangle \<times> (int \<times> int)" where
  "clip dst r src sp =
     (let orig = (MinX r, MinY r);
          r = Intersect r (PRect dst);
          r = Intersect r (Add (Bounds src) (fst orig - fst sp, snd orig - snd sp));
          dx = MinX r - fst orig;
          dy = MinY r - snd orig
      in (r, (fst sp + dx, snd sp + dy)))"

definition Draw_Src :: "RGBAImage \<Rightarrow> Rectangle \<Rightarrow> Image \<Rightarrow> int \<times> int \<Rightarrow> RGBAImage" where
  "Draw_Src dst r src sp =
     (let (r, sp) = clip dst r src sp
      in fold (\<lambda>y dst.
           fold (\<lambda>x dst.
             SetRGBA dst x y (high_bytes (At src (fst sp + (x - MinX r)) (snd sp + (y - MinY r)))))
             [MinX r..MaxX r - 1] dst)
           [MinY r..MaxY r - 1] dst)"

section \<open>Themes\<close>

record Theme =
  BGColor :: Color
  TextColor :: Color
  TitleColor :: Color
  StatsColor :: Color

definition themes :: "string \<rightharpoonup> Theme" where
  "themes =
     [''light'' \<mapsto>
        \<lparr>BGColor = White, TextColor = Black,
         TitleColor = color_RGBA 40 120 200 255, StatsColor = color_RGBA 50 50 50 255\<rparr>,
      ''dark'' \<mapsto>
        \<lparr>BGColor = color_RGBA 30 30 30 255, TextColor = color_RGBA 230 230 230 255,
         TitleColor = color_RGBA 100 180 255 255, StatsColor = color_RGBA 200 200 200 255\<rparr>,
      ''a'' \<mapsto>
        \<lparr>BGColor = color_RGBA 255 240 240 255, TextColor = color_RGBA 80 20 20 255,
         TitleColor = color_RGBA 200 50 50 255, StatsColor = color_RGBA 120 40 40 255\<rparr>]"

text \<open>
  Indexing a Go map never fails: a missing key yields the zero value and \<open>ok = false\<close>.
  The zero \<open>Theme\<close> has four nil colours; it stands here with all channels zero.
\<close>

definition zeroTheme :: Theme where
  "zeroTheme =
     \<lparr>BGColor = (0, 0, 0, 0), TextColor = (0, 0, 0, 0),
      TitleColor = (0, 0, 0, 0), StatsColor = (0, 0, 0, 0)\<rparr>"

definition index_themes :: "string \<Rightarrow> Theme \<times> bool" where
  "index_themes name = (case themes name of Some t \<Rightarrow> (t, True) | None \<Rightarrow> (zeroTheme, False))"

text \<open>The theme selection of \<open>requestHandler\<close> (\<open>Select theme, default to "light"\<close>).\<close>

definition selectTheme :: "string \<Rightarrow> Theme" where
  "selectTheme themeName =
     (let (theme, ok) = index_themes themeName
      in if \<not> ok then fst (index_themes ''light'') else theme)"

text \<open>The palette of the entry \<open>"light"\<close>.\<close>

definition light :: Theme where
  "light =
     \<lparr>BGColor = White, TextColor = Black,
      TitleColor = color_RGBA 40 120 200 255, StatsColor = color_RGBA 50 50 50 255\<rparr>"

section \<open>Font faces\<close>

text \<open>
  The file system and the font library are outside the repository. They are a fixed
  environment: what \<open>ioutil.ReadFile\<close> returns for a path (\<open>None\<close> for an error), what
  \<open>opentype.Parse\<close> makes of the bytes (\<open>None\<close> for an error), whether
  \<open>opentype.NewFace\<close> returns a face or an error, which pixels \<open>font.Drawer.DrawString\<close>
  paints, and what \<open>png.Encode\<close> returns.
\<close>

datatype Font = Font "u8 list"

record FaceOptions =
  Size :: rat
  DPI :: rat

text \<open>
  A face is a heap object; \<open>face_id\<close> is its identity (the number of faces made before
  it), so that two faces built alike are still two objects.
\<close>

record Face =
  face_id :: nat
  face_font :: Font
  face_opts :: FaceOptions

record Drawer =
  Dst :: RGBAImage
  Src :: Color
  DFace :: Face
  Dot :: "32 word \<times> 32 word"

type_synonym error = string

record Env =
  ReadFile :: "string \<Rightarrow> u8 list option"
  Parse :: "u8 list \<Rightarrow> Font option"
  NewFace_ok :: "Font \<Rightarrow> FaceOptions \<Rightarrow> bool"
  Glyphs :: "Drawer \<Rightarrow> string \<Rightarrow> ((int \<times> int) \<times> RGBA) list"
  Encode :: "RGBAImage \<Rightarrow> error + u8 list"

text \<open>
  The state of the process: the global \<open>fontCache\<close>, and two counters of what the
  program did, the paths it passed to \<open>ReadFile\<close> (in order) and the number of faces
  it built.
\<close>

record State =
  fontCache :: "int \<rightharpoonup> Face"
  reads :: "string list"
  faces_made :: nat

definition init :: State where
  "init = \<lparr>fontCache = Map.empty, reads = [], faces_made = 0\<rparr>"

definition fontPaths :: "string list" where
  "fontPaths =
     [''/usr/share/fonts/truetype/inconsolata/Inconsolata.ttf'',
      ''/usr/share/fonts/truetype/inconsolata/Inconsolata-Regular.ttf'',
      ''/usr/share/fonts/opentype/inconsolata/Inconsolata-Regular.otf'',
      ''/usr/share/fonts/truetype/dejavu/DejaVuSansMono.ttf'',
      ''/usr/share/fonts/truetype/liberation/LiberationMono-Regular.ttf'',
      ''/System/Library/Fonts/Menlo.ttc'',
      ''C:'' @ CHR 0x5C # ''Windows'' @ CHR 0x5C # ''Fonts'' @ CHR 0x5C # ''consola.ttf'']"

text \<open>
  (The last path is \<open>C:\Windows\Fonts\consola.ttf\<close>; \<open>CHR 0x5C\<close> is the backslash.)

  The loop of \<open>getFontFace\<close> over the candidate paths still to try; \<open>sz\<close> is the
  parameter \<open>size\<close>. Each pass records the path it reads. The warning that
  \<open>getFontFace\<close> logs before it returns the nil face is not part of the state.
\<close>

fun tryPaths :: "Env \<Rightarrow> int \<Rightarrow> string list \<Rightarrow> State \<Rightarrow> Face option \<times> State" where
  "tryPaths env sz [] s = (None, s)"
| "tryPaths env sz (path # paths) s =
     (let s = s\<lparr>reads := reads s @ [path]\<rparr> in
      case ReadFile env path of
        None \<Rightarrow> tryPaths env sz paths s
      | Some fontData \<Rightarrow>
          (case Parse env fontData of
             None \<Rightarrow> tryPaths env sz paths s
           | Some parsedFont \<Rightarrow>
               let opts = \<lparr>Size = float64_of_int sz, DPI = 72\<rparr> in
               if \<not> NewFace_ok env parsedFont opts then tryPaths env sz paths s
               else
                 let face = \<lparr>face_id = faces_made s, face_font = parsedFont, face_opts = opts\<rparr>;
                     s = s\<lparr>faces_made := Suc (faces_made s)\<rparr>;
                     s = s\<lparr>fontCache := (fontCache s)(sz \<mapsto> face)\<rparr>
                 in (Some face, s)))"

definition getFontFace :: "Env \<Rightarrow> int \<Rightarrow> State \<Rightarrow> Face option \<times> State" where
  "getFontFace env sz s =
     (case fontCache s sz of
        Some face \<Rightarrow> (Some face, s)
      | None \<Rightarrow> tryPaths env sz fontPaths s)"

text \<open>
  What one candidate path yields for a size: the parsed font and the options of the
  face, when the file is read, parses and the face is built.
\<close>

definition usable :: "Env \<Rightarrow> int \<Rightarrow> string \<Rightarrow> (Font \<times> FaceOptions) option" where
  "usable env sz path =
     (case ReadFile env path of
        None \<Rightarrow> None
      | Some fontData \<Rightarrow>
          (case Parse env fontData of
             None \<Rightarrow> None
           | Some parsedFont \<Rightarrow>
               let opts = \<lparr>Size = float64_of_int sz, DPI = 72\<rparr> in
               if NewFace_ok env parsedFont opts then Some (parsedFont, opts) else None))"

text \<open>What reading and parsing one candidate path gives: the font, when both succeed.\<close>

definition loads :: "Env \<Rightarrow> string \<Rightarrow> Font option" where
  "loads env path =
     (case ReadFile env path of None \<Rightarrow> None | Some fontData \<Rightarrow> Parse env fontData)"

text \<open>
  Every entry of the cache was put there by \<open>getFontFace\<close>: the face has the options
  of its size, and the size has a candidate path that yields a face. This holds
  initially and is kept by every resolution.
\<close>

definition cache_sound :: "Env \<Rightarrow> State \<Rightarrow> bool" where
  "cache_sound env s \<longleftrightarrow>
     (\<forall>sz face. fontCache s sz = Some face \<longrightarrow>
        face_opts face = \<lparr>Size = float64_of_int sz, DPI = 72\<rparr>
        \<and> (\<exists>p \<in> set fontPaths. usable env sz p \<noteq> None))"

text \<open>The state after one resolution of a size.\<close>

definition resolve :: "Env \<Rightarrow> int \<Rightarrow> State \<Rightarrow> State" where
  "resolve env sz s = snd (getFontFace env sz s)"

section \<open>The card\<close>

record StatsData =
  Name :: string
  Avatar :: Image
  Followers :: int
  Following :: int
  PublicRepos :: int
  TotalStars :: int

text \<open>The verb \<open>%d\<close> of \<open>fmt.Sprintf\<close>: decimal digits, a minus sign for a negative number.\<close>

function decimal :: "nat \<Rightarrow> string" where
  "decimal n =
     (if n < 10 then [''0123456789'' ! n]
      else decimal (n div 10) @ [''0123456789'' ! (n mod 10)])"
  by pat_completeness auto
termination
  by (relation "measure id") auto

declare decimal.simps [simp del]

definition fmt_d :: "int \<Rightarrow> string" where
  "fmt_d i = (if i < 0 then ''-'' @ decimal (nat (- i)) else decimal (nat i))"

text \<open>\<open>d.DrawString(label)\<close>: the pixels the rasteriser paints are set in \<open>d.Dst\<close>.\<close>

definition DrawString :: "Env \<Rightarrow> Drawer \<Rightarrow> string \<Rightarrow> RGBAImage" where
  "DrawString env d label =
     fold (\<lambda>w dst. case w of ((x, y), c) \<Rightarrow> SetRGBA dst x y c) (Glyphs env d label) (Dst d)"

definition addLabel ::
  "Env \<Rightarrow> RGBAImage \<Rightarrow> int \<Rightarrow> int \<Rightarrow> string \<Rightarrow> Color \<Rightarrow> int \<Rightarrow> State \<Rightarrow> RGBAImage \<times> State" where
  "addLabel env img x y label clr fontSize s =
     (case getFontFace env fontSize s of
        (None, s) \<Rightarrow> (img, s)
      | (Some face, s) \<Rightarrow>
          let point = (word_of_int (x * 64), word_of_int (y * 64));
              d = \<lparr>Dst = img, Src = clr, DFace = face, Dot = point\<rparr>
          in (DrawString env d label, s))"

text \<open>
  \<open>createStatsImage\<close> up to the encoding: the canvas it has drawn, and the state.
  \<open>cardBase\<close> is its first part alone, the canvas before any text is drawn
  (background and avatar).
\<close>

definition cardBase :: "StatsData \<Rightarrow> Theme \<Rightarrow> RGBAImage" where
  "cardBase stats theme =
     (let width = 1200;
          height = 800;
          img = NewRGBA (Rect 0 0 width height);
          img = Draw_Src img (PRect img) (Uniform (BGColor theme)) (0, 0);
          avatarSize = 160;
          avatarDestRect = Rect 53 53 (53 + avatarSize) (53 + avatarSize);
          resizedAvatar = resizeImage (Avatar stats) avatarSize avatarSize
      in Draw_Src img avatarDestRect (Image_of resizedAvatar) (0, 0))"

definition drawCard :: "Env \<Rightarrow> StatsData \<Rightarrow> Theme \<Rightarrow> State \<Rightarrow> RGBAImage \<times> State" where
  "drawCard env stats theme s =
     (let width = 1200;
          height = 800;
          img = NewRGBA (Rect 0 0 width height);
          img = Draw_Src img (PRect img) (Uniform (BGColor theme)) (0, 0);
          avatarSize = 160;
          avatarDestRect = Rect 53 53 (53 + avatarSize) (53 + avatarSize);
          resizedAvatar = resizeImage (Avatar stats) avatarSize avatarSize;
          img = Draw_Src img avatarDestRect (Image_of resizedAvatar) (0, 0);
          (img, s) = addLabel env img (53 + avatarSize + 53) 147 (Name stats) (TitleColor theme) 72 s;
          yPos = 293;
          statSpacing = 67;
          xPos1 = 53;
          xPos2 = 640;
          (img, s) = addLabel env img xPos1 yPos
                       (''Followers: '' @ fmt_d (Followers stats)) (StatsColor theme) 48 s;
          (img, s) = addLabel env img xPos2 yPos
                       (''Following: '' @ fmt_d (Following stats)) (StatsColor theme) 48 s;
          yPos = yPos + statSpacing;
          (img, s) = addLabel env img xPos1 yPos
                       (''Public Repos: '' @ fmt_d (PublicRepos stats)) (StatsColor theme) 48 s;
          (img, s) = addLabel env img xPos2 yPos
                       (''Total Stars: '' @ fmt_d (TotalStars stats)) (StatsColor theme) 48 s
      in (img, s))"

definition createStatsImage ::
  "Env \<Rightarrow> StatsData \<Rightarrow> Theme \<Rightarrow> State \<Rightarrow> (error + u8 list) \<times> State" where
  "createStatsImage env stats theme s =
     (let (img, s) = drawCard env stats theme s
      in case Encode env img of
           Inl err \<Rightarrow> (Inl err, s)
         | Inr buf \<Rightarrow> (Inr buf, s))"

section \<open>Concrete inputs\<close>

text \<open>
  A source bitmap 112 pixels wide and 1 high whose pixel in column \<open>x\<close> has the red
  channel \<open>x\<close> (as a 16-bit channel, \<open>x << 8\<close>), and a 1 by 1 bitmap of pure blue.
\<close>

definition ramp :: Image where
  "ramp = \<lparr>Bounds = \<lparr>MinX = 0, MinY = 0, MaxX = 112, MaxY = 1\<rparr>,
           At = (\<lambda>x y. (push_bit 8 (word_of_int x), 0, 0, 0xffff))\<rparr>"

definition dot1 :: Image where
  "dot1 = \<lparr>Bounds = \<lparr>MinX = 0, MinY = 0, MaxX = 1, MaxY = 1\<rparr>,
           At = (\<lambda>x y. (0, 0, 0xffff, 0xffff))\<rparr>"

text \<open>
  A 1 by 1 bitmap whose pixel is the half-transparent orange \<open>color.NRGBA{255, 128, 0, 128}\<close>,
  as a decoded PNG with an alpha channel holds it.
\<close>

definition translucent :: Image where
  "translucent = \<lparr>Bounds = \<lparr>MinX = 0, MinY = 0, MaxX = 1, MaxY = 1\<rparr>,
                  At = (\<lambda>x y. color_NRGBA 255 128 0 128)\<rparr>"

text \<open>
  Two environments: one where the only font file present is DejaVuSansMono (the fourth
  candidate) and where drawing a string paints one pixel, the one at the anchor, in the
  colour of the drawer; and one with no font file at all.
\<close>

definition only_dejavu :: Env where
  "only_dejavu =
     \<lparr>ReadFile = (\<lambda>p. if p = ''/usr/share/fonts/truetype/dejavu/DejaVuSansMono.ttf''
                        then Some [0, 1, 0, 0] else None),
      Parse = (\<lambda>d. Some (Font d)),
      NewFace_ok = (\<lambda>f opts. True),
      Glyphs = (\<lambda>d label. [((uint (fst (Dot d)) div 64, uint (snd (Dot d)) div 64),
                               high_bytes (Src d))]),
      Encode = (\<lambda>img. Inr [])\<rparr>"

definition no_fonts :: Env where
  "no_fonts =
     \<lparr>ReadFile = (\<lambda>p. None),
      Parse = (\<lambda>d. Some (Font d)),
      NewFace_ok = (\<lambda>f opts. True),
      Glyphs = (\<lambda>d label. []),
      Encode = (\<lambda>img. Inr [])\<rparr>"

text \<open>
  The record of the end-to-end scenario: a solid blue avatar of 32 by 32 pixels.
\<close>

definition blue32 :: Image where
  "blue32 = \<lparr>Bounds = \<lparr>MinX = 0, MinY = 0, MaxX = 32, MaxY = 32\<rparr>,
             At = (\<lambda>x y. (0, 0, 0xffff, 0xffff))\<rparr>"

definition octocat :: StatsData where
  "octocat = \<lparr>Name = ''octocat'', Avatar = blue32, Followers = 10, Following = 5,
              PublicRepos = 3, TotalStars = 42\<rparr>"

section \<open>Properties of the float64 model\<close>

lemma pow2_powi: "pow2 e = 2 powi e"
  by (simp add: pow2_def power_int_def field_simps)

lemma pow2_add: "pow2 (a + b) = pow2 a * pow2 b"
  by (simp add: pow2_powi power_int_add)

lemma pow2_mono: "a \<le> b \<Longrightarrow> pow2 a \<le> pow2 b"
  by (simp add: pow2_powi power_int_increasing)

lemma pow2_nat: "pow2 (int n) = 2 ^ n"
  by (simp add: pow2_def)

lemma bitlen_pos: "0 < a \<Longrightarrow> 0 < bitlen a"
  by (subst bitlen.simps) simp

lemma bitlen_bounds:
  "0 < a \<Longrightarrow> 2 ^ (bitlen a - 1) \<le> a \<and> a < 2 ^ bitlen a"
proof (induction a rule: bitlen.induct)
  case (1 a)
  show ?case
  proof (cases "a = 1")
    case True
    then show ?thesis
      by (simp add: bitlen.simps[of 1] bitlen.simps[of 0])
  next
    case False
    with "1.prems" have h: "0 < a div 2" "\<not> a \<le> 0"
      by auto
    from "1.IH"[OF h(2) h(1)] have ih: "2 ^ (bitlen (a div 2) - 1) \<le> a div 2" "a div 2 < 2 ^ bitlen (a div 2)"
      by simp_all
    have b: "bitlen a = Suc (bitlen (a div 2))"
      using h(2) by (subst bitlen.simps) simp
    have p: "0 < bitlen (a div 2)"
      using h(1) by (rule bitlen_pos)
    then obtain m where m: "bitlen (a div 2) = Suc m"
      by (cases "bitlen (a div 2)") auto
    from ih show ?thesis
      unfolding b m by simp linarith
  qed
qed

lemma ilog2_bracket:
  assumes "0 < q"
  shows "pow2 (ilog2 q) \<le> q \<and> q < pow2 (ilog2 q + 1)"
proof -
  obtain a b where ab: "quotient_of q = (a, b)"
    by (cases "quotient_of q")
  then have b: "0 < b" and q: "q = of_int a / of_int b"
    by (simp_all add: quotient_of_denom_pos quotient_of_div)
  with assms have a: "0 < a"
    by (simp add: zero_less_divide_iff)
  define la lb where "la = bitlen a" and "lb = bitlen b"
  define k where "k = int la - int lb"
  have la: "0 < la" "2 ^ (la - 1) \<le> a" "a < 2 ^ la"
    using bitlen_bounds[OF a] bitlen_pos[OF a] by (simp_all add: la_def)
  have lb: "0 < lb" "2 ^ (lb - 1) \<le> b" "b < 2 ^ lb"
    using bitlen_bounds[OF b] bitlen_pos[OF b] by (simp_all add: lb_def)
  have ra: "(2::rat) ^ (la - 1) \<le> of_int a" "of_int a < (2::rat) ^ la"
    using la(2,3) by (metis of_int_le_iff of_int_numeral of_int_power, metis of_int_less_iff of_int_numeral of_int_power)
  have rb: "(2::rat) ^ (lb - 1) \<le> of_int b" "of_int b < (2::rat) ^ lb"
    using lb(2,3) by (metis of_int_le_iff of_int_numeral of_int_power, metis of_int_less_iff of_int_numeral of_int_power)
  have bpos: "(0::rat) < of_int b"
    using b by simp
  have up: "q < pow2 (k + 1)"
  proof -
    have "of_int a < (2::rat) ^ la"
      by (rule ra(2))
    also have "\<dots> = pow2 (k + 1) * 2 ^ (lb - 1)"
    proof -
      have "int la = (k + 1) + int (lb - 1)"
        using lb(1) by (simp add: k_def)
      then have "pow2 (int la) = pow2 (k + 1) * pow2 (int (lb - 1))"
        by (metis pow2_add)
      then show ?thesis
        by (simp add: pow2_nat)
    qed
    also have "\<dots> \<le> pow2 (k + 1) * of_int b"
      using rb(1) by (intro mult_left_mono) (simp_all add: pow2_powi)
    finally show ?thesis
      using bpos by (simp add: q pos_divide_less_eq)
  qed
  have low: "pow2 (k - 1) \<le> q"
  proof -
    have "pow2 (k - 1) * of_int b \<le> pow2 (k - 1) * 2 ^ lb"
      using rb(2) by (intro mult_left_mono) (simp_all add: pow2_powi)
    also have "\<dots> = 2 ^ (la - 1)"
    proof -
      have "int (la - 1) = (k - 1) + int lb"
        using la(1) by (simp add: k_def)
      then have "pow2 (int (la - 1)) = pow2 (k - 1) * pow2 (int lb)"
        by (metis pow2_add)
      then show ?thesis
        by (simp add: pow2_nat)
    qed
    also have "\<dots> \<le> of_int a"
      by (rule ra(1))
    finally show ?thesis
      using bpos by (simp add: q pos_le_divide_eq)
  qed
  have il: "ilog2 q = (if pow2 k \<le> q then k else k - 1)"
    by (simp add: ilog2_def ab k_def la_def lb_def Let_def)
  show ?thesis
  proof (cases "pow2 k \<le> q")
    case True
    then show ?thesis using up by (simp add: il)
  next
    case False
    then show ?thesis using low by (simp add: il)
  qed
qed

lemma rne_error: "\<bar>of_int (rne x) - x\<bar> \<le> 1 / 2"
proof -
  define d where "d = x - of_int \<lfloor>x\<rfloor>"
  have d: "0 \<le> d" "d < 1"
    unfolding d_def by linarith+
  have x: "x = of_int \<lfloor>x\<rfloor> + d"
    by (simp add: d_def)
  consider "d < 1 / 2" | "1 / 2 < d" | "d = 1 / 2"
    by linarith
  then show ?thesis
  proof cases
    case 1
    then have "rne x = \<lfloor>x\<rfloor>"
      by (simp add: rne_def Let_def d_def)
    then show ?thesis
      using d 1 by (subst (2) x) simp
  next
    case 2
    then have "rne x = \<lfloor>x\<rfloor> + 1"
      by (simp add: rne_def Let_def d_def)
    then show ?thesis
      using d 2 by (subst (2) x) simp
  next
    case 3
    then have "rne x = \<lfloor>x\<rfloor> \<or> rne x = \<lfloor>x\<rfloor> + 1"
      by (simp add: rne_def Let_def d_def)
    then have "rat_of_int (rne x) = of_int \<lfloor>x\<rfloor> \<or> rat_of_int (rne x) = of_int \<lfloor>x\<rfloor> + 1"
      by auto
    moreover have "x - of_int \<lfloor>x\<rfloor> = 1 / 2"
      using 3 by (simp add: d_def)
    ultimately show ?thesis
      by (elim disjE) linarith+
  qed
qed

lemma rne_mono_int: "of_int n \<le> x \<Longrightarrow> n \<le> rne x"
proof -
  assume "of_int n \<le> x"
  then have "n \<le> \<lfloor>x\<rfloor>"
    by (simp add: le_floor_iff)
  then show ?thesis
    by (auto simp: rne_def Let_def)
qed

lemma rne_le_int: "x \<le> of_int n \<Longrightarrow> rne x \<le> n"
proof -
  assume h: "x \<le> of_int n"
  show ?thesis
  proof (cases "x = of_int n")
    case True
    then show ?thesis by (simp add: rne_def)
  next
    case False
    with h have "x < of_int n" by simp
    then have "\<lfloor>x\<rfloor> < n"
      by (simp add: floor_less_iff)
    then show ?thesis
      by (auto simp: rne_def Let_def)
  qed
qed

text \<open>
  \<open>float64\<close> is rounding to nearest with a significand of 53 bits: the result is an
  integer between \<open>2^52\<close> and \<open>2^53\<close> times the power of two that brings \<open>q\<close> into that
  range, and it is at most half a unit in the last place away from \<open>q\<close>.
\<close>

lemma float64_nearest:
  assumes "q \<noteq> 0"
  shows "\<exists>m e. float64 q = sgn q * of_int m * pow2 e
           \<and> 2 ^ 52 \<le> m \<and> m \<le> 2 ^ 53
           \<and> pow2 (e + 52) \<le> \<bar>q\<bar> \<and> \<bar>q\<bar> < pow2 (e + 53)
           \<and> \<bar>float64 q - q\<bar> \<le> pow2 e / 2"
proof -
  define e where "e = ilog2 \<bar>q\<bar> - 52"
  define x where "x = \<bar>q\<bar> / pow2 e"
  define m where "m = rne x"
  have pe: "0 < pow2 e"
    by (simp add: pow2_powi)
  from assms have "0 < \<bar>q\<bar>" by simp
  from ilog2_bracket[OF this] have br: "pow2 (e + 52) \<le> \<bar>q\<bar>" "\<bar>q\<bar> < pow2 (e + 53)"
    by (simp_all add: e_def add.commute)
  have x1: "2 ^ 52 \<le> x"
  proof -
    have "pow2 (e + 52) = pow2 e * 2 ^ 52"
      using pow2_add[of e 52] pow2_nat[of 52] by simp
    with br(1) pe show ?thesis
      by (simp add: x_def pos_le_divide_eq mult.commute)
  qed
  have x2: "x < 2 ^ 53"
  proof -
    have "pow2 (e + 53) = pow2 e * 2 ^ 53"
      using pow2_add[of e 53] pow2_nat[of 53] by simp
    with br(2) pe show ?thesis
      by (simp add: x_def pos_divide_less_eq mult.commute)
  qed
  have m1: "2 ^ 52 \<le> m"
    unfolding m_def using x1 by (intro rne_mono_int) simp
  have m2: "m \<le> 2 ^ 53"
    unfolding m_def using x2 by (intro rne_le_int) simp
  have f: "float64 q = sgn q * of_int m * pow2 e"
    using assms by (simp add: float64_def Let_def e_def m_def x_def)
  have qx: "q = sgn q * x * pow2 e"
    using pe by (simp add: x_def mult.assoc sgn_mult_abs)
  have "float64 q - q = sgn q * (of_int m - x) * pow2 e"
    by (subst f, subst (2) qx) (simp add: algebra_simps)
  then have "\<bar>float64 q - q\<bar> = \<bar>of_int m - x\<bar> * pow2 e"
    using assms pe by (simp add: abs_mult abs_sgn_eq)
  also have "\<dots> \<le> (1 / 2) * pow2 e"
    unfolding m_def using rne_error[of x] pe by (intro mult_right_mono) simp_all
  finally have err: "\<bar>float64 q - q\<bar> \<le> pow2 e / 2"
    by simp
  from f m1 m2 br err show ?thesis
    by blast
qed

text \<open>
  Integers below \<open>2^53\<close> are \<open>float64\<close> values, and rounding changes a value by at most
  one part in \<open>2^53\<close>.
\<close>

lemma pow2_less_imp: "pow2 a \<le> x \<Longrightarrow> x < pow2 b \<Longrightarrow> a < b"
proof (rule ccontr)
  assume h: "pow2 a \<le> x" "x < pow2 b" "\<not> a < b"
  then have "pow2 b \<le> pow2 a"
    by (intro pow2_mono) simp
  with h show False by simp
qed

lemma rne_of_int [simp]: "rne (of_int k) = k"
  by (simp add: rne_def)

lemma float64_of_int_exact:
  assumes "\<bar>n\<bar> < 2 ^ 53"
  shows "float64_of_int n = of_int n"
proof (cases "n = 0")
  case True
  then show ?thesis by (simp add: float64_of_int_def float64_def)
next
  case False
  define q :: rat where "q = of_int n"
  define e where "e = ilog2 \<bar>q\<bar> - 52"
  have q0: "q \<noteq> 0" "0 < \<bar>q\<bar>"
    using False by (simp_all add: q_def)
  have "\<bar>q\<bar> < pow2 53"
  proof -
    have "\<bar>q\<bar> = of_int \<bar>n\<bar>" by (simp add: q_def)
    also have "\<dots> < of_int (2 ^ 53)"
      using assms by (simp only: of_int_less_iff)
    finally show ?thesis by (simp add: pow2_def)
  qed
  with ilog2_bracket[OF q0(2)] have "ilog2 \<bar>q\<bar> < 53"
    using pow2_less_imp by blast
  then have e: "e \<le> 0"
    by (simp add: e_def)
  then have pe: "pow2 e = 1 / 2 ^ nat (- e)"
    by (cases "e = 0") (simp_all add: pow2_def)
  have "\<bar>q\<bar> / pow2 e = of_int (\<bar>n\<bar> * 2 ^ nat (- e))"
    by (simp add: pe q_def)
  then have "rne (\<bar>q\<bar> / pow2 e) = \<bar>n\<bar> * 2 ^ nat (- e)"
    by (simp only: rne_of_int)
  then have "float64 q = sgn q * of_int (\<bar>n\<bar> * 2 ^ nat (- e)) * pow2 e"
    using q0(1) by (simp add: float64_def Let_def e_def)
  also have "\<dots> = sgn q * \<bar>q\<bar>"
    by (simp add: pe q_def)
  also have "\<dots> = q"
    by (simp add: sgn_mult_abs)
  finally show ?thesis
    by (simp add: float64_of_int_def q_def)
qed

lemma float64_rel_error: "\<bar>float64 q - q\<bar> \<le> \<bar>q\<bar> / 2 ^ 53"
proof (cases "q = 0")
  case True
  then show ?thesis by (simp add: float64_def)
next
  case False
  from float64_nearest[OF this] obtain m e where
    *: "pow2 (e + 52) \<le> \<bar>q\<bar>" "\<bar>float64 q - q\<bar> \<le> pow2 e / 2"
    by blast
  have "pow2 (e + 52) = pow2 e * 2 ^ 52"
    using pow2_add[of e 52] pow2_nat[of 52] by simp
  with *(1) have "pow2 e \<le> \<bar>q\<bar> / 2 ^ 52"
    by (simp add: pos_le_divide_eq)
  then have "pow2 e / 2 \<le> \<bar>q\<bar> / 2 ^ 52 / 2"
    by (simp add: divide_right_mono)
  also have "\<dots> = \<bar>q\<bar> / 2 ^ 53"
    by simp
  finally show ?thesis
    using *(2) by simp
qed

section \<open>Properties of the resampler\<close>

lemma pow2_pos: "0 < pow2 e"
  by (simp add: pow2_def)

lemma rne_nonneg: "0 \<le> x \<Longrightarrow> 0 \<le> rne x"
  by (auto simp: rne_def Let_def)

lemma float64_nonneg:
  assumes "0 \<le> q"
  shows "0 \<le> float64 q"
proof (cases "q = 0")
  case True
  then show ?thesis by (simp add: float64_def)
next
  case False
  define e where "e = ilog2 \<bar>q\<bar> - 52"
  have "0 \<le> \<bar>q\<bar> / pow2 e"
    using pow2_pos[of e] by simp
  then have "0 \<le> rat_of_int (rne (\<bar>q\<bar> / pow2 e)) * pow2 e"
    using pow2_pos[of e] rne_nonneg by (intro mult_nonneg_nonneg) auto
  moreover have "sgn q = 1"
    using assms False by simp
  ultimately show ?thesis
    using False by (simp add: float64_def Let_def e_def)
qed

lemma int_of_float64_nonneg: "0 \<le> f \<Longrightarrow> 0 \<le> int_of_float64 f"
  by (simp add: int_of_float64_def)

lemma srcCoord_range:
  assumes "0 \<le> i" "1 \<le> srcLen" "0 < len"
  shows "0 \<le> srcCoord srcLen len i \<and> srcCoord srcLen len i \<le> srcLen - 1"
proof -
  have "0 \<le> f64_div (float64_of_int srcLen) (float64_of_int len)"
    using assms by (simp add: f64_div_def float64_of_int_def float64_nonneg)
  moreover have "0 \<le> float64_of_int i"
    using assms by (simp add: float64_of_int_def float64_nonneg)
  ultimately have "0 \<le> int_of_float64 (f64_mul (float64_of_int i)
                (f64_div (float64_of_int srcLen) (float64_of_int len)))"
    by (simp add: f64_mul_def float64_nonneg int_of_float64_nonneg)
  then show ?thesis using assms by (auto simp: srcCoord_def Let_def)
qed


lemma offset_less:
  fixes a b w h :: int
  assumes "0 \<le> a" "a < w" "0 \<le> b" "b < h"
  shows "b * w + a < w * h" "0 \<le> b * w + a"
proof -
  have "b * w + a < b * w + w" using assms by simp
  also have "\<dots> = (b + 1) * w" by (simp add: algebra_simps)
  also have "\<dots> \<le> h * w" using assms by (intro mult_right_mono) auto
  finally show "b * w + a < w * h" by (simp add: mult.commute)
  show "0 \<le> b * w + a" using assms by simp
qed

lemma offset_inj:
  fixes a b a' b' w :: int
  assumes "0 \<le> a" "a < w" "0 \<le> a'" "a' < w" "b * w + a = b' * w + a'"
  shows "a = a' \<and> b = b'"
proof -
  have "(b * w + a) mod w = (b' * w + a') mod w"
    using assms(5) by simp
  then have "a mod w = a' mod w"
    by simp
  then have a: "a = a'"
    using assms(1-4) by (simp add: mod_pos_pos_trivial)
  with assms(5) have "b * w = b' * w"
    by simp
  moreover have "w \<noteq> 0"
    using assms(1,2) by auto
  ultimately show ?thesis
    using a by simp
qed

lemma SetRGBA_frame [simp]:
  "PRect (SetRGBA p x y c) = PRect p" "Stride (SetRGBA p x y c) = Stride p"
  "length (Pix (SetRGBA p x y c)) = length (Pix p)"
  by (simp_all add: SetRGBA_def)

lemma PixOffset_Pix_update [simp]: "PixOffset (p\<lparr>Pix := ps\<rparr>) x y = PixOffset p x y"
  by (simp add: PixOffset_def)

lemma wf_SetRGBA [simp]: "wf_rgba (SetRGBA p x y c) = wf_rgba p"
  by (simp add: wf_rgba_def)

lemma RGBAAt_SetRGBA:
  assumes "wf_rgba p"
  shows "RGBAAt (SetRGBA p x y c) x' y' =
           (if x' = x \<and> y' = y \<and> In x y (PRect p) then c else RGBAAt p x' y')"
proof (cases "In x y (PRect p) \<and> In x' y' (PRect p)")
  case False
  then show ?thesis by (auto simp: RGBAAt_def SetRGBA_def)
next
  case True
  let ?r = "PRect p"
  from True have xy: "0 \<le> x - MinX ?r" "x - MinX ?r < Dx ?r" "0 \<le> y - MinY ?r" "y - MinY ?r < Dy ?r"
    and xy': "0 \<le> x' - MinX ?r" "x' - MinX ?r < Dx ?r" "0 \<le> y' - MinY ?r" "y' - MinY ?r < Dy ?r"
    by (auto simp: In_def Dx_def Dy_def)
  have off: "PixOffset p x y = (y - MinY ?r) * Dx ?r + (x - MinX ?r)"
       "PixOffset p x' y' = (y' - MinY ?r) * Dx ?r + (x' - MinX ?r)"
    using assms by (simp_all add: PixOffset_def wf_rgba_def)
  have lt: "nat (PixOffset p x y) < length (Pix p)"
    using offset_less[OF xy] assms off by (simp add: wf_rgba_def nat_less_iff)
  have nn: "0 \<le> PixOffset p x y" "0 \<le> PixOffset p x' y'"
    using offset_less(2)[OF xy] offset_less(2)[OF xy'] off by simp_all
  have eq: "nat (PixOffset p x y) = nat (PixOffset p x' y') \<longleftrightarrow> x' = x \<and> y' = y"
  proof
    assume "nat (PixOffset p x y) = nat (PixOffset p x' y')"
    then have "PixOffset p x y = PixOffset p x' y'" using nn by simp
    then show "x' = x \<and> y' = y"
      using offset_inj[OF xy(1,2) xy'(1,2), of "y - MinY ?r" "y' - MinY ?r"] off by auto
  qed auto
  show ?thesis
    using True lt eq by (auto simp: RGBAAt_def SetRGBA_def nth_list_update)
qed

lemma fold_row_frame [simp]:
  "PRect (fold (\<lambda>x dst. SetRGBA dst x y (f x y)) xs p) = PRect p"
  "Stride (fold (\<lambda>x dst. SetRGBA dst x y (f x y)) xs p) = Stride p"
  "length (Pix (fold (\<lambda>x dst. SetRGBA dst x y (f x y)) xs p)) = length (Pix p)"
  by (induction xs arbitrary: p; simp)+

lemma wf_fold_row [simp]:
  "wf_rgba (fold (\<lambda>x dst. SetRGBA dst x y (f x y)) xs p) = wf_rgba p"
  by (simp add: wf_rgba_def)

lemma RGBAAt_fold_row:
  "wf_rgba p \<Longrightarrow>
   RGBAAt (fold (\<lambda>x dst. SetRGBA dst x y (f x y)) xs p) x' y' =
     (if x' \<in> set xs \<and> y' = y \<and> In x' y' (PRect p) then f x' y' else RGBAAt p x' y')"
proof (induction xs arbitrary: p)
  case Nil
  then show ?case by simp
next
  case (Cons a xs)
  then show ?case by (auto simp: RGBAAt_SetRGBA)
qed

lemma fold_rows_frame [simp]:
  "PRect (fold (\<lambda>y dst. fold (\<lambda>x dst. SetRGBA dst x y (f x y)) xs dst) ys p) = PRect p"
  "Stride (fold (\<lambda>y dst. fold (\<lambda>x dst. SetRGBA dst x y (f x y)) xs dst) ys p) = Stride p"
  "length (Pix (fold (\<lambda>y dst. fold (\<lambda>x dst. SetRGBA dst x y (f x y)) xs dst) ys p)) = length (Pix p)"
  by (induction ys arbitrary: p; simp)+

lemma RGBAAt_fold_rows:
  "wf_rgba p \<Longrightarrow>
   RGBAAt (fold (\<lambda>y dst. fold (\<lambda>x dst. SetRGBA dst x y (f x y)) xs dst) ys p) x' y' =
     (if x' \<in> set xs \<and> y' \<in> set ys \<and> In x' y' (PRect p) then f x' y' else RGBAAt p x' y')"
proof (induction ys arbitrary: p)
  case Nil
  then show ?case by simp
next
  case (Cons a ys)
  then show ?case by (auto simp: RGBAAt_fold_row)
qed

lemma wf_NewRGBA [simp]: "wf_rgba (NewRGBA r)"
  by (simp add: wf_rgba_def NewRGBA_def)

lemma NewRGBA_frame [simp]:
  "PRect (NewRGBA r) = r" "Stride (NewRGBA r) = Dx r"
  "length (Pix (NewRGBA r)) = nat (Dx r * Dy r)"
  by (simp_all add: NewRGBA_def)

lemma RGBAAt_NewRGBA [simp]: "RGBAAt (NewRGBA r) x y = (0, 0, 0, 0)"
proof (cases "In x y r")
  case True
  then have "0 \<le> x - MinX r" "x - MinX r < Dx r" "0 \<le> y - MinY r" "y - MinY r < Dy r"
    by (auto simp: In_def Dx_def Dy_def)
  from offset_less[OF this] have "nat (PixOffset (NewRGBA r) x y) < nat (Dx r * Dy r)"
    by (simp add: PixOffset_def nat_less_iff)
  then show ?thesis
    by (simp add: RGBAAt_def NewRGBA_def)
next
  case False
  then show ?thesis by (simp add: RGBAAt_def)
qed

lemma resizeImage_loops:
  "resizeImage src width height =
     fold (\<lambda>y dst. fold (\<lambda>x dst. SetRGBA dst x y
        (high_bytes (At src (MinX (Bounds src) + srcCoord (Dx (Bounds src)) width x)
                            (MinY (Bounds src) + srcCoord (Dy (Bounds src)) height y))))
        [0..width - 1] dst) [0..height - 1] (NewRGBA (Rect 0 0 width height))"
  by (simp add: resizeImage_def srcCoord_def Let_def Dx_def Dy_def)

lemma resizeImage_PRect: "PRect (resizeImage src width height) = Rect 0 0 width height"
  unfolding resizeImage_loops by simp

lemma resizeImage_length:
  "length (Pix (resizeImage src width height)) = nat (\<bar>width\<bar> * \<bar>height\<bar>)"
  unfolding resizeImage_loops by (simp add: Rect_def Dx_def Dy_def abs_if min_def max_def)


lemma resizeImage_At:
  assumes "0 \<le> x" "x < width" "0 \<le> y" "y < height"
  shows "RGBAAt (resizeImage src width height) x y =
           high_bytes (At src (MinX (Bounds src) + srcCoord (Dx (Bounds src)) width x)
                              (MinY (Bounds src) + srcCoord (Dy (Bounds src)) height y))"
  unfolding resizeImage_loops using assms
  by (simp add: RGBAAt_fold_rows In_def Rect_def)

lemma int_div_less:
  fixes i w h :: int
  assumes "0 < w" "i < w * h"
  shows "i div w < h"
proof (rule ccontr)
  assume "\<not> i div w < h"
  then have "w * h \<le> w * (i div w)"
    using assms(1) by (simp add: mult_left_mono)
  also have "\<dots> \<le> w * (i div w) + i mod w"
  proof -
    have "0 \<le> i mod w"
      using assms(1) by (rule pos_mod_sign)
    then show ?thesis by linarith
  qed
  also have "\<dots> = i"
    by (rule mult_div_mod_eq)
  finally show False
    using assms(2) by simp
qed


text \<open>
  The sampled coordinate against the exact quotient. The two roundings move the product
  by less than \<open>1 / len\<close>, so its integer part is \<open>floor (i * srcLen / len)\<close> unless
  \<open>len\<close> divides \<open>i * srcLen\<close>, where it can also be one less.
\<close>

lemma srcCoord_product_error:
  fixes I S L :: rat
  assumes "0 \<le> I" "0 \<le> S" "0 < L"
  shows "\<bar>f64_mul I (f64_div S L) - I * S / L\<bar> \<le> (I * S / L) * (3 / 2 ^ 53)"
proof -
  define r where "r = f64_div S L"
  define T where "T = I * S / L"
  have T0: "0 \<le> T"
    using assms by (simp add: T_def)
  have r0: "0 \<le> r"
    using assms by (simp add: r_def f64_div_def float64_nonneg)
  have er: "\<bar>r - S / L\<bar> \<le> (S / L) / 2 ^ 53"
    using float64_rel_error[of "S / L"] assms by (simp add: r_def f64_div_def)
  then have rle: "r \<le> (S / L) * (1 + 1 / 2 ^ 53)"
    by (simp add: abs_le_iff algebra_simps)
  have "I * r - T = I * (r - S / L)"
    by (simp add: T_def algebra_simps)
  then have "\<bar>I * r - T\<bar> = I * \<bar>r - S / L\<bar>"
    using assms(1) by (simp add: abs_mult)
  also have "\<dots> \<le> I * ((S / L) / 2 ^ 53)"
    using er assms(1) by (rule mult_left_mono)
  also have "\<dots> = T / 2 ^ 53"
    by (simp add: T_def)
  finally have e1: "\<bar>I * r - T\<bar> \<le> T / 2 ^ 53" .
  have "I * r \<le> I * ((S / L) * (1 + 1 / 2 ^ 53))"
    using rle assms(1) by (rule mult_left_mono)
  then have Ir: "I * r \<le> T * (1 + 1 / 2 ^ 53)"
    by (simp add: T_def)
  have "\<bar>f64_mul I r - I * r\<bar> \<le> \<bar>I * r\<bar> / 2 ^ 53"
    unfolding f64_mul_def by (rule float64_rel_error)
  also have "\<dots> = (I * r) / 2 ^ 53"
    using assms(1) r0 by simp
  also have "\<dots> \<le> (T * (1 + 1 / 2 ^ 53)) / 2 ^ 53"
    using Ir by (simp add: divide_right_mono)
  finally have e2: "\<bar>f64_mul I r - I * r\<bar> \<le> (T * (1 + 1 / 2 ^ 53)) / 2 ^ 53" .
  have "\<bar>f64_mul I r - T\<bar> \<le> \<bar>f64_mul I r - I * r\<bar> + \<bar>I * r - T\<bar>"
    by simp
  also have "\<dots> \<le> (T * (1 + 1 / 2 ^ 53)) / 2 ^ 53 + T / 2 ^ 53"
    using e1 e2 by simp
  also have "\<dots> = T * ((2 + 1 / 2 ^ 53) / 2 ^ 53)"
    by (simp add: algebra_simps add_divide_distrib)
  also have "\<dots> \<le> T * (3 / 2 ^ 53)"
    using T0 by (intro mult_left_mono) simp_all
  finally show ?thesis
    by (simp add: r_def T_def)
qed

lemma srcCoord_floor:
  assumes "0 \<le> i" "i < len" "1 \<le> srcLen" "i * srcLen < 2 ^ 50" "len < 2 ^ 53" "srcLen < 2 ^ 53"
  shows "srcCoord srcLen len i = (i * srcLen) div len
       \<or> (i * srcLen) mod len = 0 \<and> srcCoord srcLen len i = (i * srcLen) div len - 1"
proof -
  define I S L :: rat where "I = of_int i" and "S = of_int srcLen" and "L = of_int len"
  define n where "n = i * srcLen"
  define t m where "t = n div len" and "m = n mod len"
  define p where "p = f64_mul I (f64_div S L)"
  have len: "0 < len" using assms(1,2) by simp
  have pos: "0 \<le> I" "0 \<le> S" "0 < L"
    using assms len by (simp_all add: I_def S_def L_def)
  have conv: "float64_of_int i = I" "float64_of_int srcLen = S" "float64_of_int len = L"
    using assms len by (simp_all add: float64_of_int_exact I_def S_def L_def)
  have nm: "n = t * len + m" "0 \<le> m" "m < len" "0 \<le> t"
    using len assms(1,3) by (simp_all add: t_def m_def n_def pos_imp_zdiv_nonneg_iff)
  have T: "I * S / L = of_int t + of_int m / L"
  proof -
    have "I * S = of_int n" by (simp add: I_def S_def n_def)
    also have "\<dots> = of_int t * L + of_int m" by (simp add: nm(1) L_def)
    finally show ?thesis using pos(3) by (simp add: add_divide_distrib)
  qed
  have nlt: "of_int n < (2::rat) ^ 50"
  proof -
    have "rat_of_int n < of_int (2 ^ 50)"
      using assms(4) unfolding n_def by (simp only: of_int_less_iff)
    then show ?thesis by simp
  qed
  have err: "\<bar>p - I * S / L\<bar> < 1 / L"
  proof -
    have "\<bar>p - I * S / L\<bar> \<le> (I * S / L) * (3 / 2 ^ 53)"
      unfolding p_def using pos by (rule srcCoord_product_error)
    also have "\<dots> = (of_int n * (3 / 2 ^ 53)) / L"
      by (simp add: I_def S_def n_def)
    also have "\<dots> < 1 / L"
    proof -
      have "of_int n * (3 / 2 ^ 53) < (2::rat) ^ 50 * (3 / 2 ^ 53)"
        using nlt by (intro mult_strict_right_mono) simp_all
      also have "\<dots> < 1" by simp
      finally have "of_int n * (3 / 2 ^ 53) < (1::rat)" .
      then show ?thesis using pos(3) by (rule divide_strict_right_mono)
    qed
    finally show ?thesis .
  qed
  have p0: "0 \<le> p"
    using pos by (simp add: p_def f64_mul_def f64_div_def float64_nonneg)
  have s: "int_of_float64 p = \<lfloor>p\<rfloor>"
    using p0 by (simp add: int_of_float64_def)
  have tb: "t \<le> srcLen - 1"
  proof -
    have "n < srcLen * len"
      using assms(1,2,3) unfolding n_def by (simp add: mult.commute)
    then have "t < srcLen"
      unfolding t_def using len by (simp add: int_div_less mult.commute)
    then show ?thesis by simp
  qed
  have Linv: "1 / L \<le> 1"
    using len by (simp add: L_def)
  have fl: "\<lfloor>p\<rfloor> = t \<or> m = 0 \<and> \<lfloor>p\<rfloor> = t - 1"
  proof (cases "m = 0")
    case True
    with T err have "\<bar>p - of_int t\<bar> < 1 / L" by simp
    with Linv have "of_int t - 1 < p" "p < of_int t + 1"
      by linarith+
    then have "\<lfloor>p\<rfloor> = t \<or> \<lfloor>p\<rfloor> = t - 1"
      by (cases "of_int t \<le> p") (simp_all add: floor_unique)
    with True show ?thesis by simp
  next
    case False
    with nm have m1: "1 \<le> m" "m \<le> len - 1" by simp_all
    have "1 / L \<le> of_int m / L"
      using m1(1) pos(3) by (simp add: divide_right_mono)
    moreover have "of_int m / L \<le> (L - 1) / L"
      using m1(2) pos(3) by (simp add: divide_right_mono L_def)
    moreover have "(L - 1) / L = 1 - 1 / L"
      using pos(3) by (simp add: diff_divide_distrib)
    ultimately have "of_int t + 1 / L \<le> I * S / L" "I * S / L \<le> of_int t + 1 - 1 / L"
      using T by simp_all
    with err have "of_int t < p" "p < of_int t + 1"
      by linarith+
    then have "\<lfloor>p\<rfloor> = t"
      by (simp add: floor_unique)
    then show ?thesis by simp
  qed
  have "srcCoord srcLen len i = (if \<lfloor>p\<rfloor> \<ge> srcLen then srcLen - 1 else \<lfloor>p\<rfloor>)"
    by (simp add: srcCoord_def conv p_def[symmetric] s Let_def)
  also have "\<dots> = \<lfloor>p\<rfloor>"
    using fl tb by auto
  finally show ?thesis
    using fl by (simp add: t_def m_def n_def)
qed

text \<open>
  Claim C1, as amended. For a source of width and height at least 1 and positive target
  dimensions, \<open>resizeImage\<close> returns a bitmap with bounds \<open>(0,0)-(width,height)\<close> and
  exactly \<open>width * height\<close> pixels, whose pixel at \<open>(x, y)\<close> is the 8-bit pixel of the
  source at column \<open>srcCoord srcW width x\<close> and row \<open>srcCoord srcH height y\<close>, counted
  from the corner of the source's bounds. The coordinate is computed in \<open>float64\<close>
  (the ratio is rounded, then the product, then the fraction is dropped) and capped at
  the last column or row; it lies in \<open>[0, srcW - 1]\<close> and \<open>[0, srcH - 1]\<close>. For
  \<open>width * srcW\<close> and \<open>height * srcH\<close> up to \<open>2^50\<close> the column is \<open>floor (x * srcW / width)\<close>,
  except that it may be one less where \<open>width\<close> divides \<open>x * srcW\<close>; likewise the row.
\<close>

theorem resizeImage_samples:
  assumes "1 \<le> Dx (Bounds src)" "1 \<le> Dy (Bounds src)" "0 < width" "0 < height"
  shows "PRect (resizeImage src width height) = \<lparr>MinX = 0, MinY = 0, MaxX = width, MaxY = height\<rparr>
       \<and> length (Pix (resizeImage src width height)) = nat (width * height)
       \<and> (\<forall>x y. 0 \<le> x \<and> x < width \<and> 0 \<le> y \<and> y < height \<longrightarrow>
            RGBAAt (resizeImage src width height) x y =
              high_bytes (At src (MinX (Bounds src) + srcCoord (Dx (Bounds src)) width x)
                                 (MinY (Bounds src) + srcCoord (Dy (Bounds src)) height y))
            \<and> 0 \<le> srcCoord (Dx (Bounds src)) width x
            \<and> srcCoord (Dx (Bounds src)) width x \<le> Dx (Bounds src) - 1
            \<and> 0 \<le> srcCoord (Dy (Bounds src)) height y
            \<and> srcCoord (Dy (Bounds src)) height y \<le> Dy (Bounds src) - 1)
       \<and> (width * Dx (Bounds src) \<le> 2 ^ 50 \<and> height * Dy (Bounds src) \<le> 2 ^ 50 \<longrightarrow>
            (\<forall>x y. 0 \<le> x \<and> x < width \<and> 0 \<le> y \<and> y < height \<longrightarrow>
               (srcCoord (Dx (Bounds src)) width x = (x * Dx (Bounds src)) div width
                \<or> (x * Dx (Bounds src)) mod width = 0
                  \<and> srcCoord (Dx (Bounds src)) width x = (x * Dx (Bounds src)) div width - 1)
             \<and> (srcCoord (Dy (Bounds src)) height y = (y * Dy (Bounds src)) div height
                \<or> (y * Dy (Bounds src)) mod height = 0
                  \<and> srcCoord (Dy (Bounds src)) height y = (y * Dy (Bounds src)) div height - 1)))"
proof -
  have 1: "PRect (resizeImage src width height) = \<lparr>MinX = 0, MinY = 0, MaxX = width, MaxY = height\<rparr>"
    using assms(3,4) by (simp add: resizeImage_PRect Rect_def)
  have 2: "length (Pix (resizeImage src width height)) = nat (width * height)"
    using assms(3,4) by (simp add: resizeImage_length)
  have 3: "\<forall>x y. 0 \<le> x \<and> x < width \<and> 0 \<le> y \<and> y < height \<longrightarrow>
            RGBAAt (resizeImage src width height) x y =
              high_bytes (At src (MinX (Bounds src) + srcCoord (Dx (Bounds src)) width x)
                                 (MinY (Bounds src) + srcCoord (Dy (Bounds src)) height y))
            \<and> 0 \<le> srcCoord (Dx (Bounds src)) width x
            \<and> srcCoord (Dx (Bounds src)) width x \<le> Dx (Bounds src) - 1
            \<and> 0 \<le> srcCoord (Dy (Bounds src)) height y
            \<and> srcCoord (Dy (Bounds src)) height y \<le> Dy (Bounds src) - 1"
    using assms srcCoord_range resizeImage_At by simp
  have 4: "srcCoord srcLen len i = (i * srcLen) div len
         \<or> (i * srcLen) mod len = 0 \<and> srcCoord srcLen len i = (i * srcLen) div len - 1"
    if "len * srcLen \<le> 2 ^ 50" "1 \<le> srcLen" "0 \<le> i" "i < len" for srcLen len i
  proof (rule srcCoord_floor)
    have "i * srcLen \<le> (len - 1) * srcLen"
      using that by (intro mult_right_mono) simp_all
    also have "\<dots> < len * srcLen"
      using that by (simp add: algebra_simps)
    finally show "i * srcLen < 2 ^ 50"
      using that(1) by simp
    have "len * 1 \<le> len * srcLen"
      using that by (intro mult_left_mono) simp_all
    then show "len < 2 ^ 53"
      using that(1) by simp
    have "1 * srcLen \<le> len * srcLen"
      using that by (intro mult_right_mono) simp_all
    then show "srcLen < 2 ^ 53"
      using that(1) by simp
  qed (use that in simp_all)
  have 5: "width * Dx (Bounds src) \<le> 2 ^ 50 \<and> height * Dy (Bounds src) \<le> 2 ^ 50 \<longrightarrow>
            (\<forall>x y. 0 \<le> x \<and> x < width \<and> 0 \<le> y \<and> y < height \<longrightarrow>
               (srcCoord (Dx (Bounds src)) width x = (x * Dx (Bounds src)) div width
                \<or> (x * Dx (Bounds src)) mod width = 0
                  \<and> srcCoord (Dx (Bounds src)) width x = (x * Dx (Bounds src)) div width - 1)
             \<and> (srcCoord (Dy (Bounds src)) height y = (y * Dy (Bounds src)) div height
                \<or> (y * Dy (Bounds src)) mod height = 0
                  \<and> srcCoord (Dy (Bounds src)) height y = (y * Dy (Bounds src)) div height - 1))"
  proof (intro impI allI conjI)
    fix x y
    assume b: "width * Dx (Bounds src) \<le> 2 ^ 50 \<and> height * Dy (Bounds src) \<le> 2 ^ 50"
      and r: "0 \<le> x \<and> x < width \<and> 0 \<le> y \<and> y < height"
    show "srcCoord (Dx (Bounds src)) width x = (x * Dx (Bounds src)) div width
                \<or> (x * Dx (Bounds src)) mod width = 0
                  \<and> srcCoord (Dx (Bounds src)) width x = (x * Dx (Bounds src)) div width - 1"
      using b r assms(1) by (intro 4) simp_all
    show "srcCoord (Dy (Bounds src)) height y = (y * Dy (Bounds src)) div height
                \<or> (y * Dy (Bounds src)) mod height = 0
                  \<and> srcCoord (Dy (Bounds src)) height y = (y * Dy (Bounds src)) div height - 1"
      using b r assms(2) by (intro 4) simp_all
  qed
  from 1 2 3 5 show ?thesis
    by blast
qed

lemma srcCoord_112_160_90: "srcCoord 112 160 90 = 62"
  unfolding srcCoord_def by code_simp

lemma srcCoord_1_1_0: "srcCoord 1 1 0 = 0"
  unfolding srcCoord_def by code_simp

text \<open>
  Claim C1 as stated fails: the column is not always \<open>floor (x * srcW / W)\<close>. Resizing
  the 112 pixel wide ramp to width 160, destination column 90 takes source column 62,
  while \<open>floor (90 * 112 / 160) = 63\<close>: \<open>112 / 160\<close> is rounded down to a \<open>float64\<close>
  just below \<open>0.7\<close>, and \<open>90\<close> times that is rounded to the \<open>float64\<close> just below 63.
\<close>

theorem resizeImage_floor_counterexample:
  "RGBAAt (resizeImage ramp 160 1) 90 0 = high_bytes (At ramp 62 0)
   \<and> (90 * 112) div 160 = (63 :: int)
   \<and> RGBAAt (resizeImage ramp 160 1) 90 0 \<noteq> high_bytes (At ramp ((90 * 112) div 160) ((0 * 1) div 1))"
proof -
  have "RGBAAt (resizeImage ramp 160 1) 90 0 =
          high_bytes (At ramp (MinX (Bounds ramp) + srcCoord (Dx (Bounds ramp)) 160 90)
                              (MinY (Bounds ramp) + srcCoord (Dy (Bounds ramp)) 1 0))"
    by (rule resizeImage_At) simp_all
  also have "\<dots> = high_bytes (At ramp 62 0)"
    by (simp add: ramp_def Dx_def Dy_def srcCoord_112_160_90 srcCoord_1_1_0)
  finally have 1: "RGBAAt (resizeImage ramp 160 1) 90 0 = high_bytes (At ramp 62 0)" .
  have 2: "high_bytes (At ramp 62 0) = (62, 0, 0, 255)"
    "high_bytes (At ramp ((90 * 112) div 160) ((0 * 1) div 1)) = (63, 0, 0, 255)"
    by (simp_all add: ramp_def high_bytes_def)
  show ?thesis
    unfolding 1 2 by simp
qed

text \<open>Claim C1: the theorem at the ramp, resized to 160 by 1.\<close>

theorem resizeImage_samples_witness:
  "1 \<le> Dx (Bounds ramp) \<and> 1 \<le> Dy (Bounds ramp) \<and> (0::int) < 160 \<and> (0::int) < 1
   \<and> 160 * Dx (Bounds ramp) \<le> 2 ^ 50 \<and> 1 * Dy (Bounds ramp) \<le> 2 ^ 50
   \<and> PRect (resizeImage ramp 160 1) = \<lparr>MinX = 0, MinY = 0, MaxX = 160, MaxY = 1\<rparr>
   \<and> length (Pix (resizeImage ramp 160 1)) = 160
   \<and> RGBAAt (resizeImage ramp 160 1) 90 0 = (62, 0, 0, 255)
   \<and> (90 * Dx (Bounds ramp)) mod 160 = 0
   \<and> srcCoord (Dx (Bounds ramp)) 160 90 = (90 * Dx (Bounds ramp)) div 160 - 1
   \<and> srcCoord (Dx (Bounds ramp)) 160 1 = (1 * Dx (Bounds ramp)) div 160"
proof -
  have h: "1 \<le> Dx (Bounds ramp)" "1 \<le> Dy (Bounds ramp)" "(0::int) < 160" "(0::int) < 1"
    by (simp_all add: ramp_def Dx_def Dy_def)
  have b: "160 * Dx (Bounds ramp) \<le> 2 ^ 50 \<and> 1 * Dy (Bounds ramp) \<le> 2 ^ 50"
    by (simp add: ramp_def Dx_def Dy_def)
  have r: "(0::int) \<le> 90 \<and> (90::int) < 160 \<and> (0::int) \<le> 0 \<and> (0::int) < 1"
    "(0::int) \<le> 1 \<and> (1::int) < 160 \<and> (0::int) \<le> 0 \<and> (0::int) < 1"
    by simp_all
  note t = resizeImage_samples[OF h]
  from t have 1: "PRect (resizeImage ramp 160 1) = \<lparr>MinX = 0, MinY = 0, MaxX = 160, MaxY = 1\<rparr>"
    by blast
  from t have 2: "length (Pix (resizeImage ramp 160 1)) = nat (160 * 1)"
    by blast
  from t r(1) have 3: "RGBAAt (resizeImage ramp 160 1) 90 0 =
           high_bytes (At ramp (MinX (Bounds ramp) + srcCoord (Dx (Bounds ramp)) 160 90)
                               (MinY (Bounds ramp) + srcCoord (Dy (Bounds ramp)) 1 0))"
    by blast
  from t b r(1) have 4: "srcCoord (Dx (Bounds ramp)) 160 90 = (90 * Dx (Bounds ramp)) div 160
         \<or> (90 * Dx (Bounds ramp)) mod 160 = 0
           \<and> srcCoord (Dx (Bounds ramp)) 160 90 = (90 * Dx (Bounds ramp)) div 160 - 1"
    by blast
  from t b r(2) have 5: "srcCoord (Dx (Bounds ramp)) 160 1 = (1 * Dx (Bounds ramp)) div 160
         \<or> (1 * Dx (Bounds ramp)) mod 160 = 0
           \<and> srcCoord (Dx (Bounds ramp)) 160 1 = (1 * Dx (Bounds ramp)) div 160 - 1"
    by blast
  have d: "Dx (Bounds ramp) = 112" "Dy (Bounds ramp) = 1" "MinX (Bounds ramp) = 0" "MinY (Bounds ramp) = 0"
    by (simp_all add: ramp_def Dx_def Dy_def)
  have 3: "RGBAAt (resizeImage ramp 160 1) 90 0 = (62, 0, 0, 255)"
    unfolding 3 d srcCoord_112_160_90 srcCoord_1_1_0 by (simp add: ramp_def high_bytes_def)
  have 4: "srcCoord (Dx (Bounds ramp)) 160 90 = (90 * Dx (Bounds ramp)) div 160 - 1"
    using 4 unfolding d srcCoord_112_160_90 by simp
  have 5: "srcCoord (Dx (Bounds ramp)) 160 1 = (1 * Dx (Bounds ramp)) div 160"
    using 5 unfolding d by simp
  have 6: "(90 * Dx (Bounds ramp)) mod 160 = 0"
    unfolding d by simp
  from h b 1 2 3 4 5 6 show ?thesis
    by simp
qed

text \<open>
  The stored 8-bit pixel of a colour that is held as premultiplied 8-bit RGBA, or as
  NRGBA with full alpha, is that colour's own four bytes.
\<close>

lemma drop_widen: "ucast (drop_bit 8 (widen c)) = c"
  unfolding widen_def
  by (rule bit_word_eqI) (auto simp: bit_simps dest: bit_imp_le_length)

lemma high_bytes_color_RGBA: "high_bytes (color_RGBA r g b a) = (r, g, b, a)"
  by (simp add: high_bytes_def color_RGBA_def drop_widen)

lemma unat_u8: "unat (c :: u8) < 256"
  using unsigned_less[of c, where 'a = nat] by simp

lemma unat_ucast_u8: "unat (ucast (c :: u8) :: u32) = unat c"
  using unat_u8[of c] by (simp add: unsigned_ucast_eq take_bit_nat_eq_self)

lemma widen_257: "widen c = ucast c * 257"
proof -
  have "ucast c + push_bit 8 (ucast c :: u32) = ucast c OR push_bit 8 (ucast c)"
    by (rule disjunctive_add) (auto simp: bit_simps dest: bit_imp_le_length)
  then show ?thesis
    by (simp add: widen_def push_bit_eq_mult algebra_simps)
qed

lemma unat_widen: "unat (widen c) = unat c * 257"
proof -
  have "unat (ucast c :: u32) * unat (257 :: u32) < 2 ^ LENGTH(32)"
    using unat_u8[of c] by (simp add: unat_ucast_u8)
  then have "unat ((ucast c :: u32) * 257) = unat (ucast c :: u32) * unat (257 :: u32)"
    by (simp only: unat_mult_lem)
  then show ?thesis
    by (simp add: widen_257 unat_ucast_u8)
qed

lemma widen_opaque: "widen c * 0xff div 0xff = widen c"
proof -
  have "unat (widen c) * unat (0xff :: u32) < 2 ^ LENGTH(32)"
    using unat_u8[of c] by (simp add: unat_widen)
  then have "unat (widen c * 0xff) = unat (widen c) * unat (0xff :: u32)"
    by (simp only: unat_mult_lem)
  then have "unat (widen c * 0xff div 0xff) = unat (widen c)"
    by (simp add: unat_div)
  then show ?thesis
    by (simp add: word_unat_eq_iff)
qed

lemma high_bytes_color_NRGBA_opaque: "high_bytes (color_NRGBA r g b 255) = (r, g, b, 255)"
  by (simp add: high_bytes_def color_NRGBA_def widen_opaque drop_widen)

text \<open>
  Claim C6, as amended. Every pixel of the output comes from one pixel inside the bounds
  of the source, with nothing interpolated or blended: if \<open>RGBA()\<close> of that source pixel
  is \<open>(r, g, b, a)\<close>, the output pixel is \<open>(r >> 8, g >> 8, b >> 8, a >> 8)\<close> as bytes.
  These channels are the alpha-premultiplied ones; nothing is un-premultiplied. When the
  source pixel is held as 8-bit premultiplied RGBA, or as NRGBA with alpha 255, the
  output pixel is its four stored bytes unchanged.
\<close>

theorem resizeImage_copies_premultiplied_pixels:
  assumes "1 \<le> Dx (Bounds src)" "1 \<le> Dy (Bounds src)" "0 < width" "0 < height"
    and "0 \<le> x" "x < width" "0 \<le> y" "y < height"
  shows "\<exists>sx sy r g b a. In sx sy (Bounds src) \<and> At src sx sy = (r, g, b, a)
           \<and> RGBAAt (resizeImage src width height) x y =
               (ucast (drop_bit 8 r), ucast (drop_bit 8 g), ucast (drop_bit 8 b), ucast (drop_bit 8 a))
           \<and> (\<forall>r8 g8 b8 a8. At src sx sy = color_RGBA r8 g8 b8 a8 \<longrightarrow>
                 RGBAAt (resizeImage src width height) x y = (r8, g8, b8, a8))
           \<and> (\<forall>r8 g8 b8. At src sx sy = color_NRGBA r8 g8 b8 255 \<longrightarrow>
                 RGBAAt (resizeImage src width height) x y = (r8, g8, b8, 255))"
proof -
  let ?sx = "MinX (Bounds src) + srcCoord (Dx (Bounds src)) width x"
  let ?sy = "MinY (Bounds src) + srcCoord (Dy (Bounds src)) height y"
  obtain r g b a where c: "At src ?sx ?sy = (r, g, b, a)"
    by (cases "At src ?sx ?sy") auto
  have inb: "In ?sx ?sy (Bounds src)"
    using srcCoord_range[OF assms(5) assms(1) assms(3)] srcCoord_range[OF assms(7) assms(2) assms(4)]
    by (simp add: In_def Dx_def Dy_def)
  have px: "RGBAAt (resizeImage src width height) x y = high_bytes (At src ?sx ?sy)"
    using assms by (simp add: resizeImage_At)
  then have 1: "RGBAAt (resizeImage src width height) x y =
               (ucast (drop_bit 8 r), ucast (drop_bit 8 g), ucast (drop_bit 8 b), ucast (drop_bit 8 a))"
    by (simp add: c high_bytes_def)
  have 2: "\<forall>r8 g8 b8 a8. At src ?sx ?sy = color_RGBA r8 g8 b8 a8 \<longrightarrow>
                 RGBAAt (resizeImage src width height) x y = (r8, g8, b8, a8)"
    by (simp add: px high_bytes_color_RGBA)
  have 3: "\<forall>r8 g8 b8. At src ?sx ?sy = color_NRGBA r8 g8 b8 255 \<longrightarrow>
                 RGBAAt (resizeImage src width height) x y = (r8, g8, b8, 255)"
    by (simp add: px high_bytes_color_NRGBA_opaque)
  from inb c 1 2 3 show ?thesis
    by blast
qed


text \<open>
  Claim C6 as stated fails: the channels are not un-premultiplied, and the output can
  hold a value that no source pixel has. The source pixel \<open>NRGBA{255, 128, 0, 128}\<close> is
  stored as \<open>(128, 64, 0, 128)\<close>, which differs from its four bytes, and the colour of the
  stored pixel, \<open>RGBA{128, 64, 0, 128}\<close>, is not the colour of the source pixel either
  (green is \<open>0x4040\<close> against \<open>0x4080\<close>).
\<close>

theorem resizeImage_translucent_counterexample:
  "At translucent 0 0 = color_NRGBA 255 128 0 128
   \<and> RGBAAt (resizeImage translucent 2 2) 1 1 = (128, 64, 0, 128)
   \<and> RGBAAt (resizeImage translucent 2 2) 1 1 \<noteq> (255, 128, 0, 128)
   \<and> color_RGBA 128 64 0 128 \<noteq> At translucent 0 0"
proof -
  have "RGBAAt (resizeImage translucent 2 2) 1 1 =
          high_bytes (At translucent (MinX (Bounds translucent) + srcCoord (Dx (Bounds translucent)) 2 1)
                                     (MinY (Bounds translucent) + srcCoord (Dy (Bounds translucent)) 2 1))"
    by (rule resizeImage_At) simp_all
  also have "\<dots> = high_bytes (color_NRGBA 255 128 0 128)"
    by (simp add: translucent_def)
  also have "\<dots> = (128, 64, 0, 128)"
    by (simp add: high_bytes_def color_NRGBA_def widen_def)
  finally have 1: "RGBAAt (resizeImage translucent 2 2) 1 1 = (128, 64, 0, 128)" .
  have 2: "At translucent 0 0 = color_NRGBA 255 128 0 128"
    by (simp add: translucent_def)
  have 3: "color_RGBA 128 64 0 128 \<noteq> color_NRGBA 255 128 0 128"
    by (simp add: color_RGBA_def color_NRGBA_def widen_def)
  show ?thesis
    unfolding 1 2 using 3 by simp
qed

text \<open>
  Claim C6: the theorem at the blue pixel resized to 3 by 2, destination pixel \<open>(2, 1)\<close>;
  pure blue is the same colour as \<open>RGBA\<close> and as \<open>NRGBA\<close> with full alpha.
\<close>

theorem resizeImage_copies_premultiplied_pixels_witness:
  "1 \<le> Dx (Bounds dot1) \<and> 1 \<le> Dy (Bounds dot1) \<and> (0::int) < 3 \<and> (0::int) < 2
   \<and> (0::int) \<le> 2 \<and> (2::int) < 3 \<and> (0::int) \<le> 1 \<and> (1::int) < 2
   \<and> At dot1 0 0 = color_RGBA 0 0 255 255 \<and> At dot1 0 0 = color_NRGBA 0 0 255 255
   \<and> RGBAAt (resizeImage dot1 3 2) 2 1 = (0, 0, 255, 255)"
proof -
  have h: "1 \<le> Dx (Bounds dot1)" "1 \<le> Dy (Bounds dot1)" "(0::int) < 3" "(0::int) < 2"
    "(0::int) \<le> 2" "(2::int) < 3" "(0::int) \<le> 1" "(1::int) < 2"
    by (simp_all add: dot1_def Dx_def Dy_def)
  have c: "At dot1 sx sy = color_RGBA 0 0 255 255" "At dot1 sx sy = color_NRGBA 0 0 255 255" for sx sy
    by (simp_all add: dot1_def color_RGBA_def color_NRGBA_def widen_def)
  from resizeImage_copies_premultiplied_pixels[OF h] obtain sx sy where
    "\<forall>r8 g8 b8 a8. At dot1 sx sy = color_RGBA r8 g8 b8 a8 \<longrightarrow>
        RGBAAt (resizeImage dot1 3 2) 2 1 = (r8, g8, b8, a8)"
    by blast
  with c(1)[of sx sy] have "RGBAAt (resizeImage dot1 3 2) 2 1 = (0, 0, 255, 255)"
    by blast
  with h c show ?thesis
    by blast
qed


section \<open>Properties of the font resolver\<close>

lemma tryPaths_unusable:
  "usable env sz p = None \<Longrightarrow>
   tryPaths env sz (p # ps) s = tryPaths env sz ps (s\<lparr>reads := reads s @ [p]\<rparr>)"
  by (simp add: usable_def Let_def split: option.splits if_splits)

lemma usable_SomeD:
  assumes "usable env sz p = Some (f, opts)"
  shows "\<exists>d. ReadFile env p = Some d \<and> Parse env d = Some f \<and>
      NewFace_ok env f \<lparr>Size = float64_of_int sz, DPI = 72\<rparr> \<and> opts = \<lparr>Size = float64_of_int sz, DPI = 72\<rparr>"
proof (cases "ReadFile env p")
  case None
  with assms show ?thesis by (simp add: usable_def)
next
  case (Some d)
  note rd = this
  show ?thesis
  proof (cases "Parse env d")
    case None
    with assms rd show ?thesis by (simp add: usable_def)
  next
    case (Some f')
    with assms rd show ?thesis
      by (simp add: usable_def Let_def split: if_splits)
  qed
qed


lemma tryPaths_usable:
  assumes "usable env sz p = Some (f, opts)"
  shows "tryPaths env sz (p # ps) s =
     (Some \<lparr>face_id = faces_made s, face_font = f, face_opts = opts\<rparr>,
      s\<lparr>reads := reads s @ [p], faces_made := Suc (faces_made s),
        fontCache := (fontCache s)(sz \<mapsto> \<lparr>face_id = faces_made s, face_font = f, face_opts = opts\<rparr>)\<rparr>)"
proof -
  from usable_SomeD[OF assms] obtain d where d: "ReadFile env p = Some d" "Parse env d = Some f"
      "NewFace_ok env f \<lparr>Size = float64_of_int sz, DPI = 72\<rparr>" "opts = \<lparr>Size = float64_of_int sz, DPI = 72\<rparr>"
    by blast
  show ?thesis
    by (simp add: d Let_def)
qed

lemma usable_opts:
  "usable env sz p = Some (f, opts) \<Longrightarrow> opts = \<lparr>Size = float64_of_int sz, DPI = 72\<rparr>"
  using usable_SomeD by blast

lemma tryPaths_none:
  "\<forall>p \<in> set ps. usable env sz p = None \<Longrightarrow>
   tryPaths env sz ps s = (None, s\<lparr>reads := reads s @ ps\<rparr>)"
proof (induction ps arbitrary: s)
  case Nil
  then show ?case by simp
next
  case (Cons p ps)
  then show ?case by (simp add: tryPaths_unusable del: tryPaths.simps)
qed

lemma tryPaths_first:
  assumes "\<forall>q \<in> set pre. usable env sz q = None" "usable env sz p = Some (f, opts)"
  shows "tryPaths env sz (pre @ p # post) s =
     (Some \<lparr>face_id = faces_made s, face_font = f, face_opts = opts\<rparr>,
      s\<lparr>reads := reads s @ pre @ [p], faces_made := Suc (faces_made s),
        fontCache := (fontCache s)(sz \<mapsto> \<lparr>face_id = faces_made s, face_font = f, face_opts = opts\<rparr>)\<rparr>)"
  using assms(1)
proof (induction pre arbitrary: s)
  case Nil
  show ?case
    unfolding append_Nil by (rule tryPaths_usable[OF assms(2)])
next
  case (Cons q pre)
  have "tryPaths env sz ((q # pre) @ p # post) s =
          tryPaths env sz (pre @ p # post) (s\<lparr>reads := reads s @ [q]\<rparr>)"
    unfolding append_Cons using Cons.prems by (intro tryPaths_unusable) simp
  also have "\<dots> = (Some \<lparr>face_id = faces_made s, face_font = f, face_opts = opts\<rparr>,
      s\<lparr>reads := reads s @ (q # pre) @ [p], faces_made := Suc (faces_made s),
        fontCache := (fontCache s)(sz \<mapsto> \<lparr>face_id = faces_made s, face_font = f, face_opts = opts\<rparr>)\<rparr>)"
    using Cons.prems by (subst Cons.IH) simp_all
  finally show ?case .
qed

lemma tryPaths_result:
  "(\<forall>p \<in> set ps. usable env sz p = None)
     \<and> tryPaths env sz ps s = (None, s\<lparr>reads := reads s @ ps\<rparr>)
   \<or> (\<exists>pre p post f opts. ps = pre @ p # post \<and> (\<forall>q \<in> set pre. usable env sz q = None)
         \<and> usable env sz p = Some (f, opts)
         \<and> tryPaths env sz ps s =
             (Some \<lparr>face_id = faces_made s, face_font = f, face_opts = opts\<rparr>,
              s\<lparr>reads := reads s @ pre @ [p], faces_made := Suc (faces_made s),
                fontCache := (fontCache s)(sz \<mapsto>
                  \<lparr>face_id = faces_made s, face_font = f, face_opts = opts\<rparr>)\<rparr>))"
proof (cases "\<exists>p \<in> set ps. usable env sz p \<noteq> None")
  case False
  then have "\<forall>p \<in> set ps. usable env sz p = None"
    by blast
  then show ?thesis
    using tryPaths_none by blast
next
  case True
  then obtain pre p post where split: "ps = pre @ p # post" "usable env sz p \<noteq> None"
      "\<forall>q \<in> set pre. \<not> usable env sz q \<noteq> None"
    using split_list_first_prop[of ps "\<lambda>p. usable env sz p \<noteq> None"] by blast
  from split(2) obtain f opts where u: "usable env sz p = Some (f, opts)"
    by (cases "usable env sz p") auto
  from split(3) have pre: "\<forall>q \<in> set pre. usable env sz q = None"
    by blast
  have "tryPaths env sz ps s =
          (Some \<lparr>face_id = faces_made s, face_font = f, face_opts = opts\<rparr>,
           s\<lparr>reads := reads s @ pre @ [p], faces_made := Suc (faces_made s),
             fontCache := (fontCache s)(sz \<mapsto>
               \<lparr>face_id = faces_made s, face_font = f, face_opts = opts\<rparr>)\<rparr>)"
    unfolding split(1) by (rule tryPaths_first[OF pre u])
  with split(1) pre u show ?thesis
    by blast
qed

lemma tryPaths_Some:
  assumes "tryPaths env sz ps s = (Some face, s1)"
  shows "\<exists>pre p post f opts. ps = pre @ p # post \<and> (\<forall>q \<in> set pre. usable env sz q = None)
           \<and> usable env sz p = Some (f, opts)
           \<and> face = \<lparr>face_id = faces_made s, face_font = f, face_opts = opts\<rparr>
           \<and> s1 = s\<lparr>reads := reads s @ pre @ [p], faces_made := Suc (faces_made s),
                    fontCache := (fontCache s)(sz \<mapsto> face)\<rparr>"
  using tryPaths_result[of ps env sz s] assms by auto

lemma getFontFace_hit:
  "fontCache s sz = Some face \<Longrightarrow> getFontFace env sz s = (Some face, s)"
  by (simp add: getFontFace_def)

lemma getFontFace_Some_cached:
  assumes "getFontFace env sz s = (Some face, s1)"
  shows "fontCache s1 sz = Some face"
proof (cases "fontCache s sz")
  case None
  with assms have "tryPaths env sz fontPaths s = (Some face, s1)"
    by (simp add: getFontFace_def)
  from tryPaths_Some[OF this] show ?thesis by auto
next
  case (Some a)
  with assms show ?thesis by (simp add: getFontFace_def)
qed

lemma usable_loads:
  assumes "\<forall>f opts. NewFace_ok env f opts"
  shows "usable env sz p = (case loads env p of None \<Rightarrow> None
           | Some f \<Rightarrow> Some (f, \<lparr>Size = float64_of_int sz, DPI = 72\<rparr>))"
  using assms by (auto simp: usable_def loads_def Let_def split: option.splits)

text \<open>
  Claim C5. On a cache miss for size \<open>sz\<close> (face construction itself never failing, as
  in the font library), \<open>getFontFace\<close> tries the candidate paths in order: if \<open>p\<close> is the
  first path that is read and parses, it returns a new face of that font with the
  options \<open>Size = sz\<close> and \<open>DPI = 72\<close>, stored in the cache under \<open>sz\<close>, having read
  exactly the paths up to \<open>p\<close>; if no path is read and parses, it returns no face, and
  the state changes only by the reads.
\<close>

theorem getFontFace_miss:
  assumes "fontCache s sz = None" "\<forall>f opts. NewFace_ok env f opts"
  shows "(fontPaths = pre @ p # post \<and> (\<forall>q \<in> set pre. loads env q = None) \<and> loads env p = Some f \<longrightarrow>
            getFontFace env sz s =
              (Some \<lparr>face_id = faces_made s, face_font = f,
                     face_opts = \<lparr>Size = float64_of_int sz, DPI = 72\<rparr>\<rparr>,
               s\<lparr>reads := reads s @ pre @ [p], faces_made := Suc (faces_made s),
                 fontCache := (fontCache s)(sz \<mapsto>
                   \<lparr>face_id = faces_made s, face_font = f,
                    face_opts = \<lparr>Size = float64_of_int sz, DPI = 72\<rparr>\<rparr>)\<rparr>))
       \<and> ((\<forall>q \<in> set fontPaths. loads env q = None) \<longrightarrow>
            getFontFace env sz s = (None, s\<lparr>reads := reads s @ fontPaths\<rparr>))"
proof (intro conjI impI)
  assume a: "fontPaths = pre @ p # post \<and> (\<forall>q \<in> set pre. loads env q = None) \<and> loads env p = Some f"
  then have "\<forall>q \<in> set pre. usable env sz q = None"
    and "usable env sz p = Some (f, \<lparr>Size = float64_of_int sz, DPI = 72\<rparr>)"
    by (simp_all add: usable_loads[OF assms(2)])
  from tryPaths_first[OF this, of post s] a assms(1)
  show "getFontFace env sz s =
              (Some \<lparr>face_id = faces_made s, face_font = f,
                     face_opts = \<lparr>Size = float64_of_int sz, DPI = 72\<rparr>\<rparr>,
               s\<lparr>reads := reads s @ pre @ [p], faces_made := Suc (faces_made s),
                 fontCache := (fontCache s)(sz \<mapsto>
                   \<lparr>face_id = faces_made s, face_font = f,
                    face_opts = \<lparr>Size = float64_of_int sz, DPI = 72\<rparr>\<rparr>)\<rparr>)"
    by (simp add: getFontFace_def)
next
  assume "\<forall>q \<in> set fontPaths. loads env q = None"
  then have "\<forall>q \<in> set fontPaths. usable env sz q = None"
    by (simp add: usable_loads[OF assms(2)])
  from tryPaths_none[OF this, of s] assms(1)
  show "getFontFace env sz s = (None, s\<lparr>reads := reads s @ fontPaths\<rparr>)"
    by (simp add: getFontFace_def)
qed

lemma getFontFace_miss_Some:
  assumes "fontCache s sz = None" "getFontFace env sz s = (Some face, s1)"
  shows "\<exists>pre p post f opts. fontPaths = pre @ p # post \<and> (\<forall>q \<in> set pre. usable env sz q = None)
           \<and> usable env sz p = Some (f, opts)
           \<and> face = \<lparr>face_id = faces_made s, face_font = f, face_opts = opts\<rparr>
           \<and> s1 = s\<lparr>reads := reads s @ pre @ [p], faces_made := Suc (faces_made s),
                    fontCache := (fontCache s)(sz \<mapsto> face)\<rparr>"
proof -
  from assms have "tryPaths env sz fontPaths s = (Some face, s1)"
    by (simp add: getFontFace_def)
  then show ?thesis by (rule tryPaths_Some)
qed

lemma getFontFace_none:
  assumes "fontCache s sz = None" "\<forall>p \<in> set fontPaths. usable env sz p = None"
  shows "getFontFace env sz s = (None, s\<lparr>reads := reads s @ fontPaths\<rparr>)"
  using assms tryPaths_none[of fontPaths env sz s] by (simp add: getFontFace_def)

lemma cache_sound_miss:
  assumes "cache_sound env s" "\<forall>p \<in> set fontPaths. usable env sz p = None"
  shows "fontCache s sz = None"
proof (rule ccontr)
  assume "fontCache s sz \<noteq> None"
  with assms(1) obtain p where "p \<in> set fontPaths" "usable env sz p \<noteq> None"
    unfolding cache_sound_def by blast
  with assms(2) show False by simp
qed

lemma cache_sound_init: "cache_sound env init"
  by (simp add: cache_sound_def init_def)

lemma cache_sound_reads [simp]: "cache_sound env (s\<lparr>reads := r\<rparr>) = cache_sound env s"
  by (simp add: cache_sound_def)

lemma cache_sound_getFontFace:
  assumes "cache_sound env s"
  shows "cache_sound env (snd (getFontFace env sz s))"
proof (cases "fontCache s sz")
  case (Some face)
  then show ?thesis using assms by (simp add: getFontFace_def)
next
  case None
  then have g: "getFontFace env sz s = tryPaths env sz fontPaths s"
    by (simp add: getFontFace_def)
  from tryPaths_result[of fontPaths env sz s] show ?thesis
  proof (elim disjE conjE exE)
    assume "tryPaths env sz fontPaths s = (None, s\<lparr>reads := reads s @ fontPaths\<rparr>)"
    then show ?thesis using assms by (simp add: g)
  next
    fix pre p post f opts
    assume *: "fontPaths = pre @ p # post" "usable env sz p = Some (f, opts)"
      and t: "tryPaths env sz fontPaths s =
             (Some \<lparr>face_id = faces_made s, face_font = f, face_opts = opts\<rparr>,
              s\<lparr>reads := reads s @ pre @ [p], faces_made := Suc (faces_made s),
                fontCache := (fontCache s)(sz \<mapsto>
                  \<lparr>face_id = faces_made s, face_font = f, face_opts = opts\<rparr>)\<rparr>)"
    have "p \<in> set fontPaths" unfolding *(1) by simp
    with *(2) have "\<exists>p \<in> set fontPaths. usable env sz p \<noteq> None" by auto
    moreover have "opts = \<lparr>Size = float64_of_int sz, DPI = 72\<rparr>"
      using *(2) by (rule usable_opts)
    ultimately show ?thesis
      using assms unfolding g t snd_conv cache_sound_def by auto
  qed
qed

lemma getFontFace_opts:
  assumes "cache_sound env s" "getFontFace env sz s = (Some face, s1)"
  shows "face_opts face = \<lparr>Size = float64_of_int sz, DPI = 72\<rparr>"
proof -
  have "cache_sound env s1"
    using cache_sound_getFontFace[OF assms(1), of sz] assms(2) by simp
  moreover have "fontCache s1 sz = Some face"
    using assms(2) by (rule getFontFace_Some_cached)
  ultimately show ?thesis
    unfolding cache_sound_def by blast
qed

lemma concat_replicate_snoc:
  "concat (replicate (Suc n) xs) = concat (replicate n xs) @ xs"
  by (induction n) simp_all

text \<open>
  Claim C4, as amended. When a resolution of \<open>sz\<close> returns a face, resolving \<open>sz\<close> again
  returns the same face (the same object: same \<open>face_id\<close>) and leaves the state as it
  is: no file is read and no face is built. All reads happen in the first resolution:
  none if \<open>sz\<close> was cached before it, else one read for each candidate path up to and
  including the first that yields a face.
\<close>

theorem getFontFace_idempotent:
  assumes "getFontFace env sz s = (Some face, s1)"
  shows "getFontFace env sz s1 = (Some face, s1)
       \<and> (fontCache s sz \<noteq> None \<longrightarrow> s1 = s)
       \<and> (fontCache s sz = None \<longrightarrow>
            (\<exists>pre p post. fontPaths = pre @ p # post
               \<and> (\<forall>q \<in> set pre. usable env sz q = None) \<and> usable env sz p \<noteq> None
               \<and> reads s1 = reads s @ pre @ [p]
               \<and> faces_made s1 = Suc (faces_made s) \<and> face_id face = faces_made s))"
proof (intro conjI impI)
  show "getFontFace env sz s1 = (Some face, s1)"
    using getFontFace_Some_cached[OF assms] by (rule getFontFace_hit)
next
  assume "fontCache s sz \<noteq> None"
  with assms show "s1 = s"
    by (auto simp: getFontFace_def)
next
  assume "fontCache s sz = None"
  from getFontFace_miss_Some[OF this assms]
  show "\<exists>pre p post. fontPaths = pre @ p # post
               \<and> (\<forall>q \<in> set pre. usable env sz q = None) \<and> usable env sz p \<noteq> None
               \<and> reads s1 = reads s @ pre @ [p]
               \<and> faces_made s1 = Suc (faces_made s) \<and> face_id face = faces_made s"
    by force
qed

lemma funpow_resolve_none:
  assumes "fontCache s sz = None" "\<forall>p \<in> set fontPaths. usable env sz p = None"
  shows "(resolve env sz ^^ n) s = s\<lparr>reads := reads s @ concat (replicate n fontPaths)\<rparr>"
proof (induction n)
  case 0
  show ?case by simp
next
  case (Suc n)
  have "fontCache (s\<lparr>reads := reads s @ concat (replicate n fontPaths)\<rparr>) sz = None"
    using assms(1) by simp
  from getFontFace_none[OF this assms(2)] Suc show ?case
    by (simp add: resolve_def concat_replicate_snoc del: replicate.simps)
qed

text \<open>
  Claim C10. When no candidate path yields a face for \<open>sz\<close>, \<open>getFontFace\<close> returns no
  face and changes nothing but the record of reads: the failure is not cached, and
  each of any number of later resolutions reads all candidate paths again.
\<close>

theorem getFontFace_failure_not_cached:
  assumes "cache_sound env s" "\<forall>p \<in> set fontPaths. usable env sz p = None"
  shows "getFontFace env sz s = (None, s\<lparr>reads := reads s @ fontPaths\<rparr>)
       \<and> (resolve env sz ^^ n) s = s\<lparr>reads := reads s @ concat (replicate n fontPaths)\<rparr>
       \<and> getFontFace env sz ((resolve env sz ^^ n) s) =
           (None, s\<lparr>reads := reads s @ concat (replicate n fontPaths) @ fontPaths\<rparr>)"
proof -
  have miss: "fontCache s sz = None"
    using assms by (rule cache_sound_miss)
  have 1: "getFontFace env sz s = (None, s\<lparr>reads := reads s @ fontPaths\<rparr>)"
    using miss assms(2) by (rule getFontFace_none)
  have 2: "(resolve env sz ^^ n) s = s\<lparr>reads := reads s @ concat (replicate n fontPaths)\<rparr>"
    using miss assms(2) by (rule funpow_resolve_none)
  have "fontCache (s\<lparr>reads := reads s @ concat (replicate n fontPaths)\<rparr>) sz = None"
    using miss by simp
  from getFontFace_none[OF this assms(2)] 2
  have 3: "getFontFace env sz ((resolve env sz ^^ n) s) =
           (None, s\<lparr>reads := reads s @ concat (replicate n fontPaths) @ fontPaths\<rparr>)"
    by simp
  from 1 2 3 show ?thesis by blast
qed

lemma float64_48: "float64_of_int 48 = 48"
  unfolding float64_of_int_def by code_simp

lemma float64_72: "float64_of_int 72 = 72"
  unfolding float64_of_int_def by code_simp

lemma getFontFace_only_dejavu:
  "getFontFace only_dejavu 48 init =
     (Some \<lparr>face_id = 0, face_font = Font [0, 1, 0, 0], face_opts = \<lparr>Size = 48, DPI = 72\<rparr>\<rparr>,
      \<lparr>fontCache = [48 \<mapsto> \<lparr>face_id = 0, face_font = Font [0, 1, 0, 0],
                              face_opts = \<lparr>Size = 48, DPI = 72\<rparr>\<rparr>],
       reads = take 4 fontPaths, faces_made = 1\<rparr>)"
  by (simp add: getFontFace_def init_def fontPaths_def only_dejavu_def float64_48 Let_def)

lemma getFontFace_only_dejavu_again:
  "getFontFace only_dejavu 48 (snd (getFontFace only_dejavu 48 init)) = getFontFace only_dejavu 48 init"
  unfolding getFontFace_only_dejavu snd_conv by (simp add: getFontFace_def)

text \<open>
  Claim C4 as stated fails: where only the fourth candidate exists, the first resolution
  of size 48 succeeds, and the two resolutions together call \<open>ReadFile\<close> four times,
  not once.
\<close>

theorem getFontFace_read_count_counterexample:
  "fst (getFontFace only_dejavu 48 init) \<noteq> None
   \<and> length (reads (snd (getFontFace only_dejavu 48 (snd (getFontFace only_dejavu 48 init))))) = 4"
  unfolding getFontFace_only_dejavu_again unfolding getFontFace_only_dejavu
  by (simp add: fontPaths_def)

text \<open>Claim C4: the theorem where only DejaVuSansMono exists, from the initial state.\<close>

theorem getFontFace_idempotent_witness:
  "getFontFace only_dejavu 48 init =
     (Some \<lparr>face_id = 0, face_font = Font [0, 1, 0, 0], face_opts = \<lparr>Size = 48, DPI = 72\<rparr>\<rparr>,
      \<lparr>fontCache = [48 \<mapsto> \<lparr>face_id = 0, face_font = Font [0, 1, 0, 0],
                              face_opts = \<lparr>Size = 48, DPI = 72\<rparr>\<rparr>],
       reads = take 4 fontPaths, faces_made = 1\<rparr>)
   \<and> getFontFace only_dejavu 48 (snd (getFontFace only_dejavu 48 init)) = getFontFace only_dejavu 48 init
   \<and> fontCache init 48 = None"
proof -
  from getFontFace_idempotent[OF getFontFace_only_dejavu]
  have "getFontFace only_dejavu 48 (snd (getFontFace only_dejavu 48 init)) = getFontFace only_dejavu 48 init"
    unfolding getFontFace_only_dejavu snd_conv by blast
  moreover have "fontCache init 48 = None"
    by (simp add: init_def)
  ultimately show ?thesis
    using getFontFace_only_dejavu by blast
qed

text \<open>
  Claim C5: the theorem where only DejaVuSansMono exists (the fourth path is the first
  that loads), and where no font file exists.
\<close>

theorem getFontFace_miss_witness:
  "fontCache init 48 = None \<and> (\<forall>f opts. NewFace_ok only_dejavu f opts)
   \<and> fontPaths = take 3 fontPaths @ ''/usr/share/fonts/truetype/dejavu/DejaVuSansMono.ttf'' # drop 4 fontPaths
   \<and> loads only_dejavu (fontPaths ! 0) = None \<and> loads only_dejavu (fontPaths ! 1) = None
   \<and> loads only_dejavu (fontPaths ! 2) = None
   \<and> loads only_dejavu ''/usr/share/fonts/truetype/dejavu/DejaVuSansMono.ttf'' = Some (Font [0, 1, 0, 0])
   \<and> getFontFace only_dejavu 48 init =
     (Some \<lparr>face_id = 0, face_font = Font [0, 1, 0, 0], face_opts = \<lparr>Size = 48, DPI = 72\<rparr>\<rparr>,
      \<lparr>fontCache = [48 \<mapsto> \<lparr>face_id = 0, face_font = Font [0, 1, 0, 0],
                              face_opts = \<lparr>Size = 48, DPI = 72\<rparr>\<rparr>],
       reads = take 4 fontPaths, faces_made = 1\<rparr>)
   \<and> (\<forall>f opts. NewFace_ok no_fonts f opts)
   \<and> getFontFace no_fonts 48 init = (None, init\<lparr>reads := fontPaths\<rparr>)"
proof -
  have h1: "fontCache init 48 = None"
    by (simp add: init_def)
  have h2: "\<forall>f opts. NewFace_ok only_dejavu f opts" "\<forall>f opts. NewFace_ok no_fonts f opts"
    by (simp_all add: only_dejavu_def no_fonts_def)
  have h3: "fontPaths = take 3 fontPaths @ ''/usr/share/fonts/truetype/dejavu/DejaVuSansMono.ttf'' # drop 4 fontPaths"
    by (simp add: fontPaths_def)
  have h4: "\<forall>q \<in> set (take 3 fontPaths). loads only_dejavu q = None"
    by (simp add: fontPaths_def loads_def only_dejavu_def)
  have h5: "loads only_dejavu ''/usr/share/fonts/truetype/dejavu/DejaVuSansMono.ttf'' = Some (Font [0, 1, 0, 0])"
    by (simp add: loads_def only_dejavu_def)
  have h6: "\<forall>q \<in> set fontPaths. loads no_fonts q = None"
    by (simp add: loads_def no_fonts_def)
  from getFontFace_miss[OF h1 h2(1), of "take 3 fontPaths" "''/usr/share/fonts/truetype/dejavu/DejaVuSansMono.ttf''"
      "drop 4 fontPaths" "Font [0, 1, 0, 0]"] h3 h4 h5
  have a: "getFontFace only_dejavu 48 init =
     (Some \<lparr>face_id = 0, face_font = Font [0, 1, 0, 0], face_opts = \<lparr>Size = 48, DPI = 72\<rparr>\<rparr>,
      \<lparr>fontCache = [48 \<mapsto> \<lparr>face_id = 0, face_font = Font [0, 1, 0, 0],
                              face_opts = \<lparr>Size = 48, DPI = 72\<rparr>\<rparr>],
       reads = take 4 fontPaths, faces_made = 1\<rparr>)"
    by (simp add: init_def float64_48 fontPaths_def)
  from getFontFace_miss[OF h1 h2(2), of "[]" "''x''" "[]" "Font []"] h6
  have b: "getFontFace no_fonts 48 init = (None, init\<lparr>reads := fontPaths\<rparr>)"
    by (simp add: init_def)
  have c: "loads only_dejavu (fontPaths ! 0) = None \<and> loads only_dejavu (fontPaths ! 1) = None
   \<and> loads only_dejavu (fontPaths ! 2) = None"
    by (simp add: fontPaths_def loads_def only_dejavu_def)
  from h1 h2 h3 h5 a b c show ?thesis by blast
qed

text \<open>Claim C10: the theorem with no font file, from the initial state, for two repetitions.\<close>

theorem getFontFace_failure_not_cached_witness:
  "cache_sound no_fonts init
   \<and> usable no_fonts 48 (fontPaths ! 0) = None \<and> usable no_fonts 48 (fontPaths ! 6) = None
   \<and> getFontFace no_fonts 48 init = (None, init\<lparr>reads := fontPaths\<rparr>)
   \<and> (resolve no_fonts 48 ^^ 2) init = init\<lparr>reads := fontPaths @ fontPaths\<rparr>
   \<and> getFontFace no_fonts 48 ((resolve no_fonts 48 ^^ 2) init) =
        (None, init\<lparr>reads := fontPaths @ fontPaths @ fontPaths\<rparr>)"
proof -
  have u: "usable no_fonts 48 p = None" for p
    by (simp add: usable_def no_fonts_def)
  then have h: "\<forall>p \<in> set fontPaths. usable no_fonts 48 p = None"
    by simp
  have e: "concat (replicate 2 fontPaths) = fontPaths @ fontPaths"
    by (simp add: numeral_2_eq_2)
  have r: "reads init = []"
    by (simp add: init_def)
  from getFontFace_failure_not_cached[OF cache_sound_init h, of 2]
  have "getFontFace no_fonts 48 init = (None, init\<lparr>reads := fontPaths\<rparr>)
   \<and> (resolve no_fonts 48 ^^ 2) init = init\<lparr>reads := fontPaths @ fontPaths\<rparr>
   \<and> getFontFace no_fonts 48 ((resolve no_fonts 48 ^^ 2) init) =
        (None, init\<lparr>reads := fontPaths @ fontPaths @ fontPaths\<rparr>)"
    unfolding e r append_Nil append_assoc .
  with u cache_sound_init show ?thesis
    by blast
qed

section \<open>Properties of the theme selection\<close>

lemma themes_light: "themes ''light'' = Some light"
  by (simp add: themes_def light_def)

lemma dom_themes: "dom themes = {''light'', ''dark'', ''a''}"
  by (auto simp: themes_def split: if_splits)

lemma selectTheme_found: "themes name = Some t \<Longrightarrow> selectTheme name = t"
  by (simp add: selectTheme_def index_themes_def)

lemma selectTheme_fallback: "themes name = None \<Longrightarrow> selectTheme name = light"
  by (simp add: selectTheme_def index_themes_def themes_light)

text \<open>
  Claim C7. The theme selection is a total function (no error is raised): a name that
  is a key of \<open>themes\<close>, compared character by character, selects its entry; every
  other name, the empty one included, selects the palette of \<open>"light"\<close>. The keys are
  \<open>"light"\<close>, \<open>"dark"\<close> and \<open>"a"\<close>; \<open>"Dark"\<close> is not one of them.
\<close>

theorem selectTheme_total:
  "selectTheme name = (case themes name of Some t \<Rightarrow> t | None \<Rightarrow> selectTheme ''light'')
   \<and> dom themes = {''light'', ''dark'', ''a''}
   \<and> (name \<notin> {''light'', ''dark'', ''a''} \<longrightarrow> selectTheme name = selectTheme ''light'')
   \<and> selectTheme '''' = selectTheme ''light''
   \<and> selectTheme ''nonexistent'' = selectTheme ''light''
   \<and> selectTheme ''light'' = light
   \<and> selectTheme ''Dark'' = selectTheme ''light''
   \<and> selectTheme ''dark'' \<noteq> selectTheme ''light''"
proof -
  have l: "selectTheme ''light'' = light"
    by (simp add: selectTheme_found themes_light)
  have 1: "selectTheme name = (case themes name of Some t \<Rightarrow> t | None \<Rightarrow> selectTheme ''light'')"
    by (cases "themes name") (simp_all add: selectTheme_found selectTheme_fallback l)
  have 2: "name \<notin> {''light'', ''dark'', ''a''} \<longrightarrow> selectTheme name = selectTheme ''light''"
    using dom_themes by (auto simp: l intro!: selectTheme_fallback)
  have 3: "selectTheme '''' = selectTheme ''light''" "selectTheme ''nonexistent'' = selectTheme ''light''"
    "selectTheme ''Dark'' = selectTheme ''light''"
    by (simp_all add: l selectTheme_fallback themes_def)
  have 4: "selectTheme ''dark'' \<noteq> selectTheme ''light''"
    by (simp add: selectTheme_def index_themes_def themes_def White_def color_Gray16_def color_RGBA_def widen_def)
  from 1 2 3 4 l dom_themes show ?thesis by blast
qed

text \<open>Claim C7: the theorem at the name \<open>"Light"\<close>.\<close>

theorem selectTheme_total_witness:
  "''Light'' \<notin> {''light'', ''dark'', ''a''} \<and> selectTheme ''Light'' = light"
proof -
  have h: "''Light'' \<notin> {''light'', ''dark'', ''a''}"
    by simp
  from selectTheme_total[of "''Light''"]
  have "''Light'' \<notin> {''light'', ''dark'', ''a''} \<longrightarrow> selectTheme ''Light'' = selectTheme ''light''"
    and "selectTheme ''light'' = light"
    by blast+
  with h show ?thesis by simp
qed

section \<open>Properties of the card\<close>

lemma Draw_Src_frame [simp]:
  "PRect (Draw_Src dst r src sp) = PRect dst"
  "Stride (Draw_Src dst r src sp) = Stride dst"
  "length (Pix (Draw_Src dst r src sp)) = length (Pix dst)"
  by (simp_all add: Draw_Src_def Let_def split: prod.splits)

lemma wf_Draw_Src [simp]: "wf_rgba (Draw_Src dst r src sp) = wf_rgba dst"
  by (simp add: wf_rgba_def)

lemma Draw_Src_At:
  assumes "wf_rgba dst" "clip dst r src sp = (r', sp')"
  shows "RGBAAt (Draw_Src dst r src sp) x y =
           (if In x y r' \<and> In x y (PRect dst)
            then high_bytes (At src (fst sp' + (x - MinX r')) (snd sp' + (y - MinY r')))
            else RGBAAt dst x y)"
  using assms by (simp add: Draw_Src_def RGBAAt_fold_rows In_def)

lemma clip_fill:
  "clip (NewRGBA (Rect 0 0 1200 800)) (Rect 0 0 1200 800) (Uniform c) (0, 0) =
     (Rect 0 0 1200 800, (0, 0))"
  by (simp add: clip_def Intersect_def Rect_def Add_def Uniform_def Empty_def Let_def)

lemma clip_avatar:
  assumes "PRect dst = Rect 0 0 1200 800" "PRect ra = Rect 0 0 160 160"
  shows "clip dst (Rect 53 53 213 213) (Image_of ra) (0, 0) = (Rect 53 53 213 213, (0, 0))"
  using assms by (simp add: clip_def Intersect_def Rect_def Add_def Image_of_def Empty_def Let_def)

lemma cardBase_frame:
  "PRect (cardBase stats theme) = \<lparr>MinX = 0, MinY = 0, MaxX = 1200, MaxY = 800\<rparr>"
  "length (Pix (cardBase stats theme)) = 960000"
  "wf_rgba (cardBase stats theme)"
  by (simp_all add: cardBase_def Let_def Rect_def Dx_def Dy_def)

lemma cardBase_At:
  "RGBAAt (cardBase stats theme) x y =
     (if 53 \<le> x \<and> x < 213 \<and> 53 \<le> y \<and> y < 213
      then RGBAAt (resizeImage (Avatar stats) 160 160) (x - 53) (y - 53)
      else if 0 \<le> x \<and> x < 1200 \<and> 0 \<le> y \<and> y < 800 then high_bytes (BGColor theme)
      else (0, 0, 0, 0))"
proof -
  let ?bg = "Draw_Src (NewRGBA (Rect 0 0 1200 800)) (Rect 0 0 1200 800) (Uniform (BGColor theme)) (0, 0)"
  let ?ra = "resizeImage (Avatar stats) 160 160"
  have "RGBAAt ?bg x y =
      (if In x y (Rect 0 0 1200 800) \<and> In x y (PRect (NewRGBA (Rect 0 0 1200 800)))
       then high_bytes (At (Uniform (BGColor theme)) (fst (0::int, 0::int) + (x - MinX (Rect 0 0 1200 800)))
            (snd (0::int, 0::int) + (y - MinY (Rect 0 0 1200 800))))
       else RGBAAt (NewRGBA (Rect 0 0 1200 800)) x y)"
    by (rule Draw_Src_At[OF wf_NewRGBA clip_fill])
  then have bg: "RGBAAt ?bg x y =
      (if 0 \<le> x \<and> x < 1200 \<and> 0 \<le> y \<and> y < 800 then high_bytes (BGColor theme) else (0, 0, 0, 0))"
    by (simp add: In_def Rect_def Uniform_def)
  have c: "clip ?bg (Rect 53 53 213 213) (Image_of ?ra) (0, 0) = (Rect 53 53 213 213, (0, 0))"
    by (rule clip_avatar) (simp_all add: resizeImage_PRect)
  have "cardBase stats theme = Draw_Src ?bg (Rect 53 53 213 213) (Image_of ?ra) (0, 0)"
    by (simp add: cardBase_def Let_def)
  then have "RGBAAt (cardBase stats theme) x y =
      (if In x y (Rect 53 53 213 213) \<and> In x y (PRect ?bg)
       then high_bytes (At (Image_of ?ra) (fst (0::int, 0::int) + (x - MinX (Rect 53 53 213 213)))
            (snd (0::int, 0::int) + (y - MinY (Rect 53 53 213 213))))
       else RGBAAt ?bg x y)"
    using Draw_Src_At[OF _ c, of x y] by simp
  then show ?thesis
    unfolding bg
    by (auto simp: In_def Rect_def Image_of_def high_bytes_color_RGBA split: prod.splits)
qed

lemma DrawString_frame [simp]:
  "PRect (DrawString env d label) = PRect (Dst d)"
  "length (Pix (DrawString env d label)) = length (Pix (Dst d))"
proof -
  have "PRect (fold (\<lambda>w dst. case w of ((x, y), c) \<Rightarrow> SetRGBA dst x y c) ws p) = PRect p
      \<and> length (Pix (fold (\<lambda>w dst. case w of ((x, y), c) \<Rightarrow> SetRGBA dst x y c) ws p)) = length (Pix p)"
    for ws p
    by (induction ws arbitrary: p) (auto split: prod.splits)
  then show "PRect (DrawString env d label) = PRect (Dst d)"
    "length (Pix (DrawString env d label)) = length (Pix (Dst d))"
    by (simp_all add: DrawString_def)
qed

lemma addLabel_frame [simp]:
  "PRect (fst (addLabel env img x y label clr fontSize s)) = PRect img"
  "length (Pix (fst (addLabel env img x y label clr fontSize s))) = length (Pix img)"
  by (simp_all add: addLabel_def Let_def split: prod.splits option.splits)

lemma addLabel_None:
  "getFontFace env fontSize s = (None, s') \<Longrightarrow>
   addLabel env img x y label clr fontSize s = (img, s')"
  by (simp add: addLabel_def)

lemma addLabel_Some:
  "getFontFace env fontSize s = (Some face, s') \<Longrightarrow>
   addLabel env img x y label clr fontSize s =
     (DrawString env \<lparr>Dst = img, Src = clr, DFace = face,
                      Dot = (word_of_int (x * 64), word_of_int (y * 64))\<rparr> label, s')"
  by (simp add: addLabel_def)

lemma addLabel_unusable:
  assumes "cache_sound env s" "\<forall>p \<in> set fontPaths. usable env sz p = None"
  shows "addLabel env img x y label clr sz s = (img, s\<lparr>reads := reads s @ fontPaths\<rparr>)"
  using getFontFace_none[OF cache_sound_miss[OF assms] assms(2)] by (rule addLabel_None)

lemma drawCard_labels:
  "drawCard env stats theme s =
     (case addLabel env (cardBase stats theme) 266 147 (Name stats) (TitleColor theme) 72 s of
        (img, s) \<Rightarrow>
     (case addLabel env img 53 293 (''Followers: '' @ fmt_d (Followers stats)) (StatsColor theme) 48 s of
        (img, s) \<Rightarrow>
     (case addLabel env img 640 293 (''Following: '' @ fmt_d (Following stats)) (StatsColor theme) 48 s of
        (img, s) \<Rightarrow>
     (case addLabel env img 53 360 (''Public Repos: '' @ fmt_d (PublicRepos stats)) (StatsColor theme) 48 s of
        (img, s) \<Rightarrow>
      addLabel env img 640 360 (''Total Stars: '' @ fmt_d (TotalStars stats)) (StatsColor theme) 48 s))))"
  by (simp add: drawCard_def cardBase_def Let_def split: prod.splits)

lemma drawCard_frame:
  "PRect (fst (drawCard env stats theme s)) = \<lparr>MinX = 0, MinY = 0, MaxX = 1200, MaxY = 800\<rparr>"
  "length (Pix (fst (drawCard env stats theme s))) = 960000"
proof -
  have *: "PRect (fst (addLabel env img x y label clr fontSize s)) = PRect (cardBase stats theme)
      \<and> length (Pix (fst (addLabel env img x y label clr fontSize s))) = length (Pix (cardBase stats theme))"
    if "PRect img = PRect (cardBase stats theme)" "length (Pix img) = length (Pix (cardBase stats theme))"
    for img x y label clr fontSize s
    using that by simp
  have "PRect (fst (drawCard env stats theme s)) = PRect (cardBase stats theme)
      \<and> length (Pix (fst (drawCard env stats theme s))) = length (Pix (cardBase stats theme))"
    unfolding drawCard_labels
    by (auto split: prod.splits dest!: arg_cong[where f=fst] simp: *)
  then show "PRect (fst (drawCard env stats theme s)) = \<lparr>MinX = 0, MinY = 0, MaxX = 1200, MaxY = 800\<rparr>"
    "length (Pix (fst (drawCard env stats theme s))) = 960000"
    by (simp_all add: cardBase_frame)
qed

text \<open>
  Claim C3. A label whose font size does not resolve is skipped: \<open>addLabel\<close> returns the
  image it was given. When neither size 72 nor size 48 resolves (no candidate path
  yields a face), \<open>createStatsImage\<close> draws exactly \<open>cardBase\<close>, a canvas of 1200 by 800
  pixels that holds the resampled avatar in the square from \<open>(53, 53)\<close> to \<open>(213, 213)\<close>
  and the 8-bit background colour everywhere else, and returns what the encoder returns
  for it: an error can only be the encoder's.
\<close>

theorem createStatsImage_without_fonts:
  assumes "cache_sound env s"
    and "\<forall>p \<in> set fontPaths. usable env 72 p = None \<and> usable env 48 p = None"
  shows "drawCard env stats theme s =
           (cardBase stats theme, s\<lparr>reads := reads s @ concat (replicate 5 fontPaths)\<rparr>)
       \<and> createStatsImage env stats theme s =
           (Encode env (cardBase stats theme), s\<lparr>reads := reads s @ concat (replicate 5 fontPaths)\<rparr>)
       \<and> PRect (cardBase stats theme) = \<lparr>MinX = 0, MinY = 0, MaxX = 1200, MaxY = 800\<rparr>
       \<and> length (Pix (cardBase stats theme)) = 1200 * 800
       \<and> (\<forall>x y. 0 \<le> x \<and> x < 1200 \<and> 0 \<le> y \<and> y < 800 \<longrightarrow>
            RGBAAt (cardBase stats theme) x y =
              (if 53 \<le> x \<and> x < 213 \<and> 53 \<le> y \<and> y < 213
               then RGBAAt (resizeImage (Avatar stats) 160 160) (x - 53) (y - 53)
               else high_bytes (BGColor theme)))
       \<and> (fst (getFontFace env fontSize s') = None \<longrightarrow>
            fst (addLabel env img lx ly label clr fontSize s') = img)"
proof -
  have u72: "\<forall>p \<in> set fontPaths. usable env 72 p = None"
    and u48: "\<forall>p \<in> set fontPaths. usable env 48 p = None"
    using assms(2) by simp_all
  have step: "addLabel env i lx ly l c sz (s\<lparr>reads := r\<rparr>) = (i, s\<lparr>reads := r @ fontPaths\<rparr>)"
    if "\<forall>p \<in> set fontPaths. usable env sz p = None" for i lx ly l c sz r
    using addLabel_unusable[of env "s\<lparr>reads := r\<rparr>" sz i lx ly l c] assms(1) that by simp
  have s0: "s = s\<lparr>reads := reads s\<rparr>"
    by simp
  have "drawCard env stats theme (s\<lparr>reads := reads s\<rparr>) =
          (cardBase stats theme,
           s\<lparr>reads := ((((reads s @ fontPaths) @ fontPaths) @ fontPaths) @ fontPaths) @ fontPaths\<rparr>)"
    unfolding drawCard_labels step[OF u72] step[OF u48] prod.case ..
  then have 1: "drawCard env stats theme s =
           (cardBase stats theme, s\<lparr>reads := reads s @ concat (replicate 5 fontPaths)\<rparr>)"
    by (simp add: eval_nat_numeral)
  have 2: "createStatsImage env stats theme s =
           (Encode env (cardBase stats theme), s\<lparr>reads := reads s @ concat (replicate 5 fontPaths)\<rparr>)"
    unfolding createStatsImage_def 1 by (simp split: sum.splits)
  have 3: "\<forall>x y. 0 \<le> x \<and> x < 1200 \<and> 0 \<le> y \<and> y < 800 \<longrightarrow>
            RGBAAt (cardBase stats theme) x y =
              (if 53 \<le> x \<and> x < 213 \<and> 53 \<le> y \<and> y < 213
               then RGBAAt (resizeImage (Avatar stats) 160 160) (x - 53) (y - 53)
               else high_bytes (BGColor theme))"
    by (simp add: cardBase_At)
  have 4: "fst (getFontFace env fontSize s') = None \<longrightarrow>
            fst (addLabel env img lx ly label clr fontSize s') = img"
    by (cases "getFontFace env fontSize s'") (auto simp: addLabel_None)
  from 1 2 3 4 cardBase_frame(1,2)[of stats theme] show ?thesis
    by simp
qed

text \<open>
  Claim C3: the theorem for the record \<open>octocat\<close>, the dark theme and no font file. The
  pixel at \<open>(60, 60)\<close> is pure blue and the pixel at \<open>(0, 0)\<close> has the dark background.
\<close>

theorem createStatsImage_without_fonts_witness:
  "cache_sound no_fonts init
   \<and> usable no_fonts 72 (fontPaths ! 0) = None \<and> usable no_fonts 48 (fontPaths ! 3) = None
   \<and> fst (getFontFace no_fonts 48 init) = None
   \<and> drawCard no_fonts octocat (selectTheme ''dark'') init =
        (cardBase octocat (selectTheme ''dark''), init\<lparr>reads := concat (replicate 5 fontPaths)\<rparr>)
   \<and> fst (createStatsImage no_fonts octocat (selectTheme ''dark'') init) = Inr []
   \<and> RGBAAt (cardBase octocat (selectTheme ''dark'')) 60 60 = (0, 0, 255, 255)
   \<and> RGBAAt (cardBase octocat (selectTheme ''dark'')) 0 0 = (30, 30, 30, 255)
   \<and> fst (addLabel no_fonts (cardBase octocat (selectTheme ''dark'')) 53 293 ''Followers: 10''
             (StatsColor (selectTheme ''dark'')) 48 init) = cardBase octocat (selectTheme ''dark'')"
proof -
  have u: "usable no_fonts sz p = None" for sz p
    by (simp add: usable_def no_fonts_def)
  then have h: "\<forall>p \<in> set fontPaths. usable no_fonts 72 p = None \<and> usable no_fonts 48 p = None"
    by simp
  have g: "fst (getFontFace no_fonts 48 init) = None"
    using getFontFace_none[of init 48 no_fonts] u by (simp add: init_def)
  have r: "reads init = []"
    by (simp add: init_def)
  have dark: "BGColor (selectTheme ''dark'') = color_RGBA 30 30 30 255"
    by (simp add: selectTheme_def index_themes_def themes_def)
  have av: "RGBAAt (resizeImage (Avatar octocat) 160 160) 7 7 = (0, 0, 255, 255)"
    by (simp add: resizeImage_At octocat_def blue32_def high_bytes_def)
  have enc: "Encode no_fonts img = Inr []" for img
    by (simp add: no_fonts_def)
  from createStatsImage_without_fonts[OF cache_sound_init h, of octocat "selectTheme ''dark''" 48 init
      "cardBase octocat (selectTheme ''dark'')" 53 293 "''Followers: 10''" "StatsColor (selectTheme ''dark'')"]
  have "drawCard no_fonts octocat (selectTheme ''dark'') init =
        (cardBase octocat (selectTheme ''dark''), init\<lparr>reads := concat (replicate 5 fontPaths)\<rparr>)"
    and "fst (createStatsImage no_fonts octocat (selectTheme ''dark'') init) =
          Encode no_fonts (cardBase octocat (selectTheme ''dark''))"
    and "RGBAAt (cardBase octocat (selectTheme ''dark'')) 60 60 =
          RGBAAt (resizeImage (Avatar octocat) 160 160) (60 - 53) (60 - 53)"
    and "RGBAAt (cardBase octocat (selectTheme ''dark'')) 0 0 = high_bytes (BGColor (selectTheme ''dark''))"
    and "fst (addLabel no_fonts (cardBase octocat (selectTheme ''dark'')) 53 293 ''Followers: 10''
             (StatsColor (selectTheme ''dark'')) 48 init) = cardBase octocat (selectTheme ''dark'')"
    using g by (simp_all add: r)
  then show ?thesis
    using u g cache_sound_init by (simp add: av dark high_bytes_color_RGBA enc)
qed

text \<open>
  Claim C8. When the sizes 72 and 48 resolve to the faces \<open>f72\<close> and \<open>f48\<close>, the canvas
  is \<open>cardBase\<close> with five strings drawn on it in this order: the name, then the four
  metric labels, each with the face \<open>f48\<close> (built for 48 points at 72 DPI) and the
  colour \<open>StatsColor\<close>, with the dot at 64 times the anchor: \<open>Followers\<close> at
  \<open>(53, 293)\<close>, \<open>Following\<close> at \<open>(640, 293)\<close>, \<open>Public Repos\<close> at \<open>(53, 360)\<close> and
  \<open>Total Stars\<close> at \<open>(640, 360)\<close>; the number follows the label text in decimal.
\<close>

theorem drawCard_metric_labels:
  assumes "cache_sound env s"
    and "getFontFace env 72 s = (Some f72, s1)"
    and "getFontFace env 48 s1 = (Some f48, s2)"
  shows "drawCard env stats theme s =
     (let c0 = cardBase stats theme;
          c1 = DrawString env \<lparr>Dst = c0, Src = TitleColor theme, DFace = f72,
                  Dot = (word_of_int (266 * 64), word_of_int (147 * 64))\<rparr> (Name stats);
          c2 = DrawString env \<lparr>Dst = c1, Src = StatsColor theme, DFace = f48,
                  Dot = (word_of_int (53 * 64), word_of_int (293 * 64))\<rparr>
                 (''Followers: '' @ fmt_d (Followers stats));
          c3 = DrawString env \<lparr>Dst = c2, Src = StatsColor theme, DFace = f48,
                  Dot = (word_of_int (640 * 64), word_of_int (293 * 64))\<rparr>
                 (''Following: '' @ fmt_d (Following stats));
          c4 = DrawString env \<lparr>Dst = c3, Src = StatsColor theme, DFace = f48,
                  Dot = (word_of_int (53 * 64), word_of_int (360 * 64))\<rparr>
                 (''Public Repos: '' @ fmt_d (PublicRepos stats));
          c5 = DrawString env \<lparr>Dst = c4, Src = StatsColor theme, DFace = f48,
                  Dot = (word_of_int (640 * 64), word_of_int (360 * 64))\<rparr>
                 (''Total Stars: '' @ fmt_d (TotalStars stats))
      in (c5, s2))
     \<and> face_opts f48 = \<lparr>Size = 48, DPI = 72\<rparr>
     \<and> (360::int) = 293 + 67"
proof -
  have hit: "getFontFace env 48 s2 = (Some f48, s2)"
    using getFontFace_Some_cached[OF assms(3)] by (rule getFontFace_hit)
  have cs1: "cache_sound env s1"
    using cache_sound_getFontFace[OF assms(1), of 72] assms(2) by simp
  have opts: "face_opts f48 = \<lparr>Size = 48, DPI = 72\<rparr>"
    using getFontFace_opts[OF cs1 assms(3)] by (simp add: float64_48)
  show ?thesis
    unfolding drawCard_labels addLabel_Some[OF assms(2)] addLabel_Some[OF assms(3)]
      addLabel_Some[OF hit] prod.case Let_def
    using opts by simp
qed

lemma DrawString_Stride [simp]: "Stride (DrawString env d label) = Stride (Dst d)"
proof -
  have "Stride (fold (\<lambda>w dst. case w of ((x, y), c) \<Rightarrow> SetRGBA dst x y c) ws p) = Stride p" for ws p
    by (induction ws arbitrary: p) (auto split: prod.splits)
  then show ?thesis
    by (simp add: DrawString_def)
qed

lemma wf_DrawString [simp]: "wf_rgba (DrawString env d label) = wf_rgba (Dst d)"
  by (simp add: wf_rgba_def)

lemma DrawString_only_dejavu:
  "DrawString only_dejavu d label =
     SetRGBA (Dst d) (uint (fst (Dot d)) div 64) (uint (snd (Dot d)) div 64) (high_bytes (Src d))"
  by (simp add: DrawString_def only_dejavu_def)

lemma getFontFace_only_dejavu_72:
  "getFontFace only_dejavu 72 init =
     (Some \<lparr>face_id = 0, face_font = Font [0, 1, 0, 0], face_opts = \<lparr>Size = 72, DPI = 72\<rparr>\<rparr>,
      \<lparr>fontCache = [72 \<mapsto> \<lparr>face_id = 0, face_font = Font [0, 1, 0, 0],
                              face_opts = \<lparr>Size = 72, DPI = 72\<rparr>\<rparr>],
       reads = take 4 fontPaths, faces_made = 1\<rparr>)"
  by (simp add: getFontFace_def init_def fontPaths_def only_dejavu_def float64_72 Let_def)

lemma getFontFace_only_dejavu_72_48:
  "getFontFace only_dejavu 48
      \<lparr>fontCache = [72 \<mapsto> \<lparr>face_id = 0, face_font = Font [0, 1, 0, 0],
                              face_opts = \<lparr>Size = 72, DPI = 72\<rparr>\<rparr>],
       reads = take 4 fontPaths, faces_made = 1\<rparr> =
     (Some \<lparr>face_id = 1, face_font = Font [0, 1, 0, 0], face_opts = \<lparr>Size = 48, DPI = 72\<rparr>\<rparr>,
      \<lparr>fontCache = [72 \<mapsto> \<lparr>face_id = 0, face_font = Font [0, 1, 0, 0],
                              face_opts = \<lparr>Size = 72, DPI = 72\<rparr>\<rparr>,
                    48 \<mapsto> \<lparr>face_id = 1, face_font = Font [0, 1, 0, 0],
                              face_opts = \<lparr>Size = 48, DPI = 72\<rparr>\<rparr>],
       reads = take 4 fontPaths @ take 4 fontPaths, faces_made = 2\<rparr>)"
  by (simp add: getFontFace_def fontPaths_def only_dejavu_def float64_48 Let_def)

lemma fmt_d_examples:
  "fmt_d 10 = ''10''" "fmt_d 5 = ''5''" "fmt_d 3 = ''3''" "fmt_d 42 = ''42''" "fmt_d (- 7) = ''-7''"
  by (simp_all add: fmt_d_def decimal.simps)

text \<open>
  Claim C8: the theorem for the record \<open>octocat\<close> and the dark theme, where
  DejaVuSansMono exists and a drawn string paints its anchor pixel: the four anchors
  carry the colour of the metrics, the anchor of the name that of the title, and the
  pixel right of the first anchor is still background.
\<close>

theorem drawCard_metric_labels_witness:
  "cache_sound only_dejavu init
   \<and> fst (getFontFace only_dejavu 72 init) =
       Some \<lparr>face_id = 0, face_font = Font [0, 1, 0, 0], face_opts = \<lparr>Size = 72, DPI = 72\<rparr>\<rparr>
   \<and> fst (getFontFace only_dejavu 48 (snd (getFontFace only_dejavu 72 init))) =
       Some \<lparr>face_id = 1, face_font = Font [0, 1, 0, 0], face_opts = \<lparr>Size = 48, DPI = 72\<rparr>\<rparr>
   \<and> ''Followers: '' @ fmt_d (Followers octocat) = ''Followers: 10''
   \<and> ''Total Stars: '' @ fmt_d (TotalStars octocat) = ''Total Stars: 42''
   \<and> RGBAAt (fst (drawCard only_dejavu octocat (selectTheme ''dark'') init)) 53 293 = (200, 200, 200, 255)
   \<and> RGBAAt (fst (drawCard only_dejavu octocat (selectTheme ''dark'') init)) 640 293 = (200, 200, 200, 255)
   \<and> RGBAAt (fst (drawCard only_dejavu octocat (selectTheme ''dark'') init)) 53 360 = (200, 200, 200, 255)
   \<and> RGBAAt (fst (drawCard only_dejavu octocat (selectTheme ''dark'') init)) 640 360 = (200, 200, 200, 255)
   \<and> RGBAAt (fst (drawCard only_dejavu octocat (selectTheme ''dark'') init)) 266 147 = (100, 180, 255, 255)
   \<and> RGBAAt (fst (drawCard only_dejavu octocat (selectTheme ''dark'') init)) 54 293 = (30, 30, 30, 255)"
proof -
  let ?dark = "selectTheme ''dark''"
  have dark: "BGColor ?dark = color_RGBA 30 30 30 255" "StatsColor ?dark = color_RGBA 200 200 200 255"
    "TitleColor ?dark = color_RGBA 100 180 255 255"
    by (simp_all add: selectTheme_def index_themes_def themes_def)
  have base: "RGBAAt (cardBase octocat ?dark) 54 293 = (30, 30, 30, 255)"
    by (simp add: cardBase_At dark high_bytes_color_RGBA)
  have inr: "In 53 293 (PRect (cardBase octocat ?dark))" "In 640 293 (PRect (cardBase octocat ?dark))"
    "In 53 360 (PRect (cardBase octocat ?dark))" "In 640 360 (PRect (cardBase octocat ?dark))"
    "In 266 147 (PRect (cardBase octocat ?dark))"
    by (simp_all add: cardBase_frame In_def)
  have labels: "''Followers: '' @ fmt_d (Followers octocat) = ''Followers: 10''"
    "''Total Stars: '' @ fmt_d (TotalStars octocat) = ''Total Stars: 42''"
    by (simp_all add: octocat_def fmt_d_examples)
  from drawCard_metric_labels[OF cache_sound_init getFontFace_only_dejavu_72 getFontFace_only_dejavu_72_48,
      of octocat ?dark]
  have "fst (drawCard only_dejavu octocat ?dark init) =
      SetRGBA (SetRGBA (SetRGBA (SetRGBA (SetRGBA (cardBase octocat ?dark)
        266 147 (100, 180, 255, 255)) 53 293 (200, 200, 200, 255)) 640 293 (200, 200, 200, 255))
        53 360 (200, 200, 200, 255)) 640 360 (200, 200, 200, 255)"
    by (simp add: Let_def DrawString_only_dejavu dark high_bytes_color_RGBA)
  then have px: "RGBAAt (fst (drawCard only_dejavu octocat ?dark init)) 53 293 = (200, 200, 200, 255)"
    "RGBAAt (fst (drawCard only_dejavu octocat ?dark init)) 640 293 = (200, 200, 200, 255)"
    "RGBAAt (fst (drawCard only_dejavu octocat ?dark init)) 53 360 = (200, 200, 200, 255)"
    "RGBAAt (fst (drawCard only_dejavu octocat ?dark init)) 640 360 = (200, 200, 200, 255)"
    "RGBAAt (fst (drawCard only_dejavu octocat ?dark init)) 266 147 = (100, 180, 255, 255)"
    "RGBAAt (fst (drawCard only_dejavu octocat ?dark init)) 54 293 = (30, 30, 30, 255)"
    using inr base by (simp_all add: RGBAAt_SetRGBA cardBase_frame(3))
  have g1: "fst (getFontFace only_dejavu 72 init) =
       Some \<lparr>face_id = 0, face_font = Font [0, 1, 0, 0], face_opts = \<lparr>Size = 72, DPI = 72\<rparr>\<rparr>"
    unfolding getFontFace_only_dejavu_72 fst_conv ..
  have g2: "fst (getFontFace only_dejavu 48 (snd (getFontFace only_dejavu 72 init))) =
       Some \<lparr>face_id = 1, face_font = Font [0, 1, 0, 0], face_opts = \<lparr>Size = 48, DPI = 72\<rparr>\<rparr>"
    unfolding getFontFace_only_dejavu_72 snd_conv getFontFace_only_dejavu_72_48 fst_conv ..
  show ?thesis
    using px labels cache_sound_init g1 g2 by blast
qed

section \<open>Further properties\<close>

text \<open>
  Whatever the fonts, the rasteriser and the record, the canvas that \<open>createStatsImage\<close>
  hands to the encoder has the bounds \<open>(0,0)-(1200,800)\<close> and 960000 pixels.
\<close>

theorem drawCard_canvas_size:
  "PRect (fst (drawCard env stats theme s)) = \<lparr>MinX = 0, MinY = 0, MaxX = 1200, MaxY = 800\<rparr>
   \<and> length (Pix (fst (drawCard env stats theme s))) = 1200 * 800"
  using drawCard_frame[of env stats theme s] by simp

text \<open>
  The cache only ever holds faces that \<open>getFontFace\<close> built for the size they are stored
  under: \<open>cache_sound\<close> holds in the initial state and every resolution keeps it.
\<close>

theorem fontCache_invariant:
  "cache_sound env init
   \<and> (cache_sound env s \<longrightarrow> cache_sound env (snd (getFontFace env sz s)))"
  using cache_sound_init cache_sound_getFontFace by blast

text \<open>The invariant where only DejaVuSansMono exists, after resolving size 48.\<close>

theorem fontCache_invariant_witness:
  "cache_sound only_dejavu init
   \<and> cache_sound only_dejavu (snd (getFontFace only_dejavu 48 init))
   \<and> fontCache (snd (getFontFace only_dejavu 48 init)) 48 =
       Some \<lparr>face_id = 0, face_font = Font [0, 1, 0, 0], face_opts = \<lparr>Size = 48, DPI = 72\<rparr>\<rparr>"
proof -
  from fontCache_invariant[of only_dejavu init 48]
  have "cache_sound only_dejavu init"
    and "cache_sound only_dejavu (snd (getFontFace only_dejavu 48 init))"
    by blast+
  moreover have "fontCache (snd (getFontFace only_dejavu 48 init)) 48 =
       Some \<lparr>face_id = 0, face_font = Font [0, 1, 0, 0], face_opts = \<lparr>Size = 48, DPI = 72\<rparr>\<rparr>"
    unfolding getFontFace_only_dejavu snd_conv by simp
  ultimately show ?thesis
    by blast
qed

end
